theory Spec2Isabelle
  imports Main "HOL-Library.Sublist" "HOL-Library.AList" "HOL-Library.Log_Nat"
    "HOL-Library.Char_ord" "HOL-Library.List_Lexorder"
begin

section \<open>Python values, exceptions and built-in operations\<close>

text \<open>
  The dashboard works on what \<^verbatim>\<open>response.json()\<close> returns: \<^verbatim>\<open>None\<close>, booleans,
  integers, strings, lists and dictionaries. A dictionary is an association list in
  insertion order with distinct keys. Characters are code points below 256; JSON numbers
  with a fractional part are outside the model.
\<close>

datatype json =
    JNull
  | JBool bool
  | JInt int
  | JStr string
  | JList "json list"
  | JObj "(string \<times> json) list"

datatype exn_class = TypeError | AttributeError | KeyError | OverflowError | OtherError

text \<open>
  An exception is its class and the text of \<^verbatim>\<open>str(e)\<close>. Every handler of the modelled
  code is \<^verbatim>\<open>except Exception\<close>, so only the text is ever observed. The texts of the
  interpreter's own exceptions follow CPython 3.12.
\<close>

datatype exn = Exn exn_class string

fun exn_str :: "exn \<Rightarrow> string" where
  "exn_str (Exn c msg) = msg"

definition bind :: "exn + 'a \<Rightarrow> ('a \<Rightarrow> exn + 'b) \<Rightarrow> exn + 'b" where
  "bind m f = (case m of Inl e \<Rightarrow> Inl e | Inr x \<Rightarrow> f x)"

subsection \<open>Strings\<close>

text \<open>The characters for which \<^verbatim>\<open>str.isspace\<close> holds, among code points below 256.\<close>

definition whitespace :: "char list" where
  "whitespace = [CHR 0x09, CHR 0x0A, CHR 0x0B, CHR 0x0C, CHR 0x0D, CHR 0x1C, CHR 0x1D,
                 CHR 0x1E, CHR 0x1F, CHR 0x20, CHR 0x85, CHR 0xA0]"

definition is_space :: "char \<Rightarrow> bool" where
  "is_space c = (c \<in> set whitespace)"

definition isspace :: "string \<Rightarrow> bool" where
  "isspace s = (s \<noteq> [] \<and> list_all is_space s)"

definition strip :: "string \<Rightarrow> string" where
  "strip s = rev (dropWhile is_space (rev (dropWhile is_space s)))"

definition strip_chars :: "char \<Rightarrow> string \<Rightarrow> string" where
  "strip_chars c s = rev (dropWhile (\<lambda>x. x = c) (rev (dropWhile (\<lambda>x. x = c) s)))"

definition lower_char :: "char \<Rightarrow> char" where
  "lower_char c =
     (let n = (of_char c :: nat)
      in if (0x41 \<le> n \<and> n \<le> 0x5A) \<or> (0xC0 \<le> n \<and> n \<le> 0xDE \<and> n \<noteq> 0xD7)
         then char_of (n + 0x20) else c)"

definition lower :: "string \<Rightarrow> string" where
  "lower s = map lower_char s"

definition startswith :: "string \<Rightarrow> string \<Rightarrow> bool" where
  "startswith s p = prefix p s"

definition endswith :: "string \<Rightarrow> string \<Rightarrow> bool" where
  "endswith s p = suffix p s"

text \<open>\<^verbatim>\<open>sub in s\<close> on strings.\<close>

fun contains :: "string \<Rightarrow> string \<Rightarrow> bool" where
  "contains sub [] = (sub = [])"
| "contains sub (c # cs) = (prefix sub (c # cs) \<or> contains sub cs)"

text \<open>
  \<^verbatim>\<open>s.split(sep)\<close> for a non-empty \<open>sep\<close>: \<open>skip\<close> counts the characters of a matched
  separator still to be passed over, \<open>acc\<close> is the current part, reversed.
\<close>

fun split_go :: "string \<Rightarrow> nat \<Rightarrow> string \<Rightarrow> string \<Rightarrow> string list" where
  "split_go sep skip acc [] = [rev acc]"
| "split_go sep (Suc k) acc (c # cs) = split_go sep k acc cs"
| "split_go sep 0 acc (c # cs) =
     (if prefix sep (c # cs) then rev acc # split_go sep (length sep - 1) [] cs
      else split_go sep 0 (c # acc) cs)"

definition split :: "string \<Rightarrow> string \<Rightarrow> string list" where
  "split s sep = split_go sep 0 [] s"

text \<open>\<^verbatim>\<open>s.split(sep, 1)\<close>: at most one split, at the leftmost occurrence.\<close>

fun split1_go :: "string \<Rightarrow> string \<Rightarrow> string \<Rightarrow> string list" where
  "split1_go sep acc [] = [rev acc]"
| "split1_go sep acc (c # cs) =
     (if prefix sep (c # cs) then [rev acc, drop (length sep) (c # cs)]
      else split1_go sep (c # acc) cs)"

definition split1 :: "string \<Rightarrow> string \<Rightarrow> string list" where
  "split1 s sep = split1_go sep [] s"

fun join :: "string \<Rightarrow> string list \<Rightarrow> string" where
  "join sep [] = []"
| "join sep [x] = x"
| "join sep (x # y # ys) = x @ sep @ join sep (y # ys)"

subsection \<open>Printing values\<close>

definition digit_char :: "nat \<Rightarrow> char" where
  "digit_char d = char_of (0x30 + d)"

fun str_nat :: "nat \<Rightarrow> string" where
  "str_nat n = (if n < 10 then [digit_char n] else str_nat (n div 10) @ [digit_char (n mod 10)])"

declare str_nat.simps [simp del]

definition str_int :: "int \<Rightarrow> string" where
  "str_int i = (if i < 0 then CHR ''-'' # str_nat (nat (- i)) else str_nat (nat i))"

definition hex_digit :: "nat \<Rightarrow> char" where
  "hex_digit d = (if d < 10 then char_of (0x30 + d) else char_of (0x57 + d))"

text \<open>\<^verbatim>\<open>repr\<close> of a string: the quote is chosen as CPython does, the rest is escaped.\<close>

definition repr_char :: "char \<Rightarrow> char \<Rightarrow> string" where
  "repr_char quote c =
     (let n = (of_char c :: nat)
      in if c = quote \<or> c = CHR 0x5C then [CHR 0x5C, c]
         else if c = CHR 0x09 then [CHR 0x5C, CHR ''t'']
         else if c = CHR 0x0A then [CHR 0x5C, CHR ''n'']
         else if c = CHR 0x0D then [CHR 0x5C, CHR ''r'']
         else if n < 0x20 \<or> (0x7F \<le> n \<and> n \<le> 0xA0) \<or> n = 0xAD
         then [CHR 0x5C, CHR ''x'', hex_digit (n div 16), hex_digit (n mod 16)]
         else [c])"

definition repr_str :: "string \<Rightarrow> string" where
  "repr_str s =
     (let quote = (if CHR 0x27 \<in> set s \<and> CHR 0x22 \<notin> set s then CHR 0x22 else CHR 0x27)
      in quote # concat (map (repr_char quote) s) @ [quote])"

fun repr :: "json \<Rightarrow> string"
  and repr_items :: "json list \<Rightarrow> string list"
  and repr_entries :: "(string \<times> json) list \<Rightarrow> string list" where
  "repr JNull = ''None''"
| "repr (JBool b) = (if b then ''True'' else ''False'')"
| "repr (JInt i) = str_int i"
| "repr (JStr s) = repr_str s"
| "repr (JList xs) = ''['' @ join '', '' (repr_items xs) @ '']''"
| "repr (JObj kvs) = ''{'' @ join '', '' (repr_entries kvs) @ ''}''"
| "repr_items [] = []"
| "repr_items (x # xs) = repr x # repr_items xs"
| "repr_entries [] = []"
| "repr_entries (kv # kvs) = (repr_str (fst kv) @ '': '' @ repr (snd kv)) # repr_entries kvs"

text \<open>\<^verbatim>\<open>str(v)\<close>, which is also what an f-string field \<^verbatim>\<open>{v}\<close> prints.\<close>

definition py_str :: "json \<Rightarrow> string" where
  "py_str v = (case v of JStr s \<Rightarrow> s | _ \<Rightarrow> repr v)"

definition type_name :: "json \<Rightarrow> string" where
  "type_name v = (case v of JNull \<Rightarrow> ''NoneType'' | JBool _ \<Rightarrow> ''bool'' | JInt _ \<Rightarrow> ''int''
                  | JStr _ \<Rightarrow> ''str'' | JList _ \<Rightarrow> ''list'' | JObj _ \<Rightarrow> ''dict'')"

subsection \<open>Operations on values\<close>

definition quoted :: "string \<Rightarrow> string" where
  "quoted s = CHR 0x27 # s @ [CHR 0x27]"

definition attribute_error :: "json \<Rightarrow> string \<Rightarrow> exn" where
  "attribute_error v attr =
     Exn AttributeError (quoted (type_name v) @ '' object has no attribute '' @ quoted attr)"

fun truthy :: "json \<Rightarrow> bool" where
  "truthy JNull = False"
| "truthy (JBool b) = b"
| "truthy (JInt i) = (i \<noteq> 0)"
| "truthy (JStr s) = (s \<noteq> [])"
| "truthy (JList xs) = (xs \<noteq> [])"
| "truthy (JObj kvs) = (kvs \<noteq> [])"

text \<open>\<^verbatim>\<open>k in v\<close> for a string \<open>k\<close>: key of a dict, substring of a string, element of a list.\<close>

definition py_in :: "string \<Rightarrow> json \<Rightarrow> exn + bool" where
  "py_in k v =
     (case v of
        JObj kvs \<Rightarrow> Inr (map_of kvs k \<noteq> None)
      | JStr s \<Rightarrow> Inr (contains k s)
      | JList xs \<Rightarrow> Inr (JStr k \<in> set xs)
      | _ \<Rightarrow> Inl (Exn TypeError
                 (''argument of type '' @ quoted (type_name v) @ '' is not iterable'')))"

text \<open>\<^verbatim>\<open>v[k]\<close> for a string \<open>k\<close>.\<close>

definition py_getitem :: "json \<Rightarrow> string \<Rightarrow> exn + json" where
  "py_getitem v k =
     (case v of
        JObj kvs \<Rightarrow> (case map_of kvs k of Some x \<Rightarrow> Inr x | None \<Rightarrow> Inl (Exn KeyError (repr_str k)))
      | JStr s \<Rightarrow> Inl (Exn TypeError (''string indices must be integers, not '' @ quoted ''str''))
      | JList xs \<Rightarrow> Inl (Exn TypeError ''list indices must be integers or slices, not str'')
      | _ \<Rightarrow> Inl (Exn TypeError (quoted (type_name v) @ '' object is not subscriptable'')))"

text \<open>\<^verbatim>\<open>v.get(k, d)\<close>.\<close>

definition py_get :: "json \<Rightarrow> string \<Rightarrow> json \<Rightarrow> exn + json" where
  "py_get v k d =
     (case v of
        JObj kvs \<Rightarrow> Inr (case map_of kvs k of Some x \<Rightarrow> x | None \<Rightarrow> d)
      | _ \<Rightarrow> Inl (attribute_error v ''get''))"

text \<open>What \<^verbatim>\<open>for x in v\<close> visits.\<close>

definition py_iter :: "json \<Rightarrow> exn + json list" where
  "py_iter v =
     (case v of
        JList xs \<Rightarrow> Inr xs
      | JObj kvs \<Rightarrow> Inr (map (\<lambda>kv. JStr (fst kv)) kvs)
      | JStr s \<Rightarrow> Inr (map (\<lambda>c. JStr [c]) s)
      | _ \<Rightarrow> Inl (Exn TypeError (quoted (type_name v) @ '' object is not iterable'')))"

text \<open>The receiver of a string method.\<close>

definition as_str :: "string \<Rightarrow> json \<Rightarrow> exn + string" where
  "as_str attr v = (case v of JStr s \<Rightarrow> Inr s | _ \<Rightarrow> Inl (attribute_error v attr))"

text \<open>Integers and booleans are the numbers of the model (\<^verbatim>\<open>True\<close> is 1).\<close>

definition py_num :: "json \<Rightarrow> int option" where
  "py_num v = (case v of JInt i \<Rightarrow> Some i | JBool b \<Rightarrow> Some (if b then 1 else 0) | _ \<Rightarrow> None)"

definition operand_error :: "string \<Rightarrow> string \<Rightarrow> string \<Rightarrow> exn" where
  "operand_error opr l r =
     Exn TypeError (''unsupported operand type(s) for '' @ opr @ '': '' @ quoted l @ '' and '' @ quoted r)"

text \<open>\<^verbatim>\<open>v > 0\<close>.\<close>

definition py_gt0 :: "json \<Rightarrow> exn + bool" where
  "py_gt0 v =
     (case py_num v of
        Some n \<Rightarrow> Inr (0 < n)
      | None \<Rightarrow> Inl (Exn TypeError (quoted ''>'' @ '' not supported between instances of ''
                        @ quoted (type_name v) @ '' and '' @ quoted ''int'')))"

text \<open>\<^verbatim>\<open>a - v\<close> for an integer \<open>a\<close>.\<close>

definition py_rsub :: "int \<Rightarrow> json \<Rightarrow> exn + int" where
  "py_rsub a v =
     (case py_num v of
        Some n \<Rightarrow> Inr (a - n)
      | None \<Rightarrow> Inl (operand_error ''-'' ''int'' (type_name v)))"

subsection \<open>Floating point\<close>

text \<open>
  A finite binary64 value is a pair \<open>(m, e)\<close> standing for \<open>m * 2 ^ e\<close>. \<open>round64 n d\<close>
  rounds the exact quotient \<open>n / d\<close> (\<open>d > 0\<close>) to the nearest binary64 value, ties to
  even, with gradual underflow; \<open>None\<close> is a result beyond the largest finite value.
\<close>

type_synonym float64 = "int \<times> int"

definition round_half_even :: "int \<Rightarrow> int \<Rightarrow> int" where
  "round_half_even n d =
     (let q = n div d; r = n mod d
      in if 2 * r < d then q else if d < 2 * r then q + 1 else if even q then q else q + 1)"

definition floor_log2 :: "int \<Rightarrow> int \<Rightarrow> int" where
  "floor_log2 n d =
     (let k = bitlen n - bitlen d
      in if d * 2 ^ nat k \<le> n * 2 ^ nat (- k) then k else k - 1)"

definition round64 :: "int \<Rightarrow> int \<Rightarrow> float64 option" where
  "round64 n d =
     (if n = 0 then Some (0, 0)
      else let a = \<bar>n\<bar>;
               sh = max (floor_log2 a d) (- 1022) - 52;
               m = round_half_even (a * 2 ^ nat (- sh)) (d * 2 ^ nat sh)
           in if 2 ^ 1024 \<le> m * 2 ^ nat sh then None else Some (sgn n * m, sh))"

text \<open>\<^verbatim>\<open>a / b\<close> on integers, for \<open>b > 0\<close>: correctly rounded, OverflowError beyond the range.\<close>

definition int_truediv :: "int \<Rightarrow> int \<Rightarrow> exn + float64" where
  "int_truediv a b =
     (case round64 a b of
        Some x \<Rightarrow> Inr x
      | None \<Rightarrow> Inl (Exn OverflowError ''integer division result too large for a float''))"

text \<open>\<^verbatim>\<open>v / b\<close> for a constant \<open>b > 0\<close>.\<close>

definition py_truediv :: "json \<Rightarrow> int \<Rightarrow> exn + float64" where
  "py_truediv v b =
     (case py_num v of
        Some n \<Rightarrow> int_truediv n b
      | None \<Rightarrow> Inl (operand_error ''/'' (type_name v) ''int''))"

text \<open>\<^verbatim>\<open>x * k\<close> for a float \<open>x\<close> and a small integer \<open>k\<close>; \<open>None\<close> is an infinity.\<close>

definition float_mul_int :: "float64 \<Rightarrow> int \<Rightarrow> float64 option" where
  "float_mul_int x k = round64 (fst x * k * 2 ^ nat (snd x)) (2 ^ nat (- snd x))"

text \<open>\<^verbatim>\<open>int(x)\<close>: truncation towards zero; an infinity raises.\<close>

definition float_trunc :: "float64 \<Rightarrow> int" where
  "float_trunc x = sgn (fst x) * (\<bar>fst x\<bar> * 2 ^ nat (snd x) div 2 ^ nat (- snd x))"

definition py_int :: "float64 option \<Rightarrow> exn + int" where
  "py_int x =
     (case x of
        Some y \<Rightarrow> Inr (float_trunc y)
      | None \<Rightarrow> Inl (Exn OverflowError ''cannot convert float infinity to integer''))"

text \<open>The format \<^verbatim>\<open>{x:.1f}\<close>: one decimal, the exact value rounded half to even.\<close>

definition format_1f :: "float64 \<Rightarrow> string" where
  "format_1f x =
     (let t = round_half_even (\<bar>fst x\<bar> * 10 * 2 ^ nat (snd x)) (2 ^ nat (- snd x))
      in (if fst x < 0 then ''-'' else []) @ str_int (t div 10) @ ''.'' @ str_int (t mod 10))"

text \<open>A \<^verbatim>\<open>for\<close> loop without \<^verbatim>\<open>break\<close> over a state \<open>s\<close>; the body may raise.\<close>

fun for_each :: "('a \<Rightarrow> 's \<Rightarrow> exn + 's) \<Rightarrow> 'a list \<Rightarrow> 's \<Rightarrow> exn + 's" where
  "for_each body [] s = Inr s"
| "for_each body (x # xs) s = bind (body x s) (for_each body xs)"

text \<open>A list comprehension \<^verbatim>\<open>[f(x) for x in xs]\<close>; the first exception ends it.\<close>

fun map_exn :: "('a \<Rightarrow> exn + 'b) \<Rightarrow> 'a list \<Rightarrow> exn + 'b list" where
  "map_exn f [] = Inr []"
| "map_exn f (x # xs) = bind (f x) (\<lambda>y. bind (map_exn f xs) (\<lambda>ys. Inr (y # ys)))"

section \<open>The record normalizer (jenkins_dashboard_core_docker.py)\<close>

subsection \<open>\<^verbatim>\<open>_get_job_name_from_url\<close>\<close>

text \<open>The loop over \<^verbatim>\<open>enumerate(job_parts)\<close>: it returns at the first part equal to
  \<^verbatim>\<open>'job'\<close> that has a successor.\<close>

fun part_after_job :: "string list \<Rightarrow> string option" where
  "part_after_job [] = None"
| "part_after_job [p] = None"
| "part_after_job (p # q # ps) = (if p = ''job'' then Some q else part_after_job (q # ps))"

definition get_job_name_from_url :: "json \<Rightarrow> exn + json" where
  "get_job_name_from_url url =
     (if \<not> truthy url then Inr (JStr ''Unknown'')
      else bind (as_str ''endswith'' url) (\<lambda>u.
        let u' = (if endswith u ''/'' then butlast u else u);
            job_parts = split u' ''/''
        in case part_after_job job_parts of
             Some name \<Rightarrow> Inr (JStr name)
           | None \<Rightarrow> Inr (JStr (last job_parts))))"

subsection \<open>\<^verbatim>\<open>_get_build_info\<close>: the job name\<close>

text \<open>\<^verbatim>\<open>'job' in build and k in build['job']\<close>.\<close>

definition in_job :: "json \<Rightarrow> string \<Rightarrow> exn + bool" where
  "in_job build k =
     bind (py_in ''job'' build) (\<lambda>has_job.
       if has_job then bind (py_getitem build ''job'') (py_in k) else Inr False)"

definition resolve_job_name :: "json \<Rightarrow> exn + json" where
  "resolve_job_name build =
     bind (py_in ''jobName'' build) (\<lambda>c1.
       if c1 then py_getitem build ''jobName''
       else bind (py_in ''jobFullName'' build) (\<lambda>c2.
       if c2 then py_getitem build ''jobFullName''
       else bind (py_in ''jobDisplayName'' build) (\<lambda>c3.
       if c3 then py_getitem build ''jobDisplayName''
       else bind (in_job build ''name'') (\<lambda>c4.
       if c4 then bind (py_getitem build ''job'') (\<lambda>job. py_getitem job ''name'')
       else bind (in_job build ''fullName'') (\<lambda>c5.
       if c5 then bind (py_getitem build ''job'') (\<lambda>job. py_getitem job ''fullName'')
       else bind (py_get build ''url'' (JStr [])) get_job_name_from_url)))))"

subsection \<open>\<^verbatim>\<open>_get_build_info\<close>: the branch\<close>

text \<open>The loop over \<^verbatim>\<open>action['parameters']\<close>; the \<^verbatim>\<open>break\<close> leaves this loop only.\<close>

fun scan_parameters :: "json list \<Rightarrow> json \<Rightarrow> exn + json" where
  "scan_parameters [] branch = Inr branch"
| "scan_parameters (param # params) branch =
     bind (py_get param ''name'' (JStr [])) (\<lambda>name.
     bind (as_str ''lower'' name) (\<lambda>n.
       if lower n = ''branch'' \<or> lower n = ''git_branch''
       then py_get param ''value'' (JStr [])
       else scan_parameters params branch))"

text \<open>The body of the loop over \<^verbatim>\<open>action.get('causes', [])\<close>.\<close>

definition cause_step :: "json \<Rightarrow> json \<Rightarrow> exn + json" where
  "cause_step cause branch =
     bind (py_in ''shortDescription'' cause) (\<lambda>has_desc.
       if \<not> has_desc then Inr branch
       else bind (py_getitem cause ''shortDescription'') (\<lambda>desc.
            bind (as_str ''lower'' desc) (\<lambda>d.
              if contains ''branch'' (lower d)
              then let branch_parts = split d ''branch''
                   in if 1 < length branch_parts
                      then let potential_branch =
                                 strip (strip_chars (CHR '':'') (strip (branch_parts ! 1)))
                           in if potential_branch \<noteq> [] \<and> \<not> truthy branch
                              then Inr (JStr potential_branch) else Inr branch
                      else Inr branch
              else Inr branch)))"

text \<open>The body of the loop over \<^verbatim>\<open>build.get('actions', [])\<close>.\<close>

definition action_step :: "json \<Rightarrow> json \<Rightarrow> exn + json" where
  "action_step action branch =
     bind (py_in ''parameters'' action) (\<lambda>has_parameters.
     bind (if has_parameters
           then bind (py_getitem action ''parameters'') (\<lambda>ps.
                bind (py_iter ps) (\<lambda>params. scan_parameters params branch))
           else Inr branch) (\<lambda>branch1.
     bind (py_in ''causes'' action) (\<lambda>has_causes.
       if has_causes
       then bind (py_get action ''causes'' (JList [])) (\<lambda>cs.
            bind (py_iter cs) (\<lambda>causes. for_each cause_step causes branch1))
       else Inr branch1)))"

text \<open>
  \<^verbatim>\<open>re.search(r'branch[:\s]+([^\s\]]+)', full_display, re.IGNORECASE)\<close>, group 1.
  After the word, the separators are taken greedily; \<open>backtrack\<close> gives them back one
  at a time (never the first) until a non-empty token starts there.
\<close>

definition is_sep :: "char \<Rightarrow> bool" where
  "is_sep c = (c = CHR '':'' \<or> is_space c)"

definition is_tok :: "char \<Rightarrow> bool" where
  "is_tok c = (\<not> is_space c \<and> c \<noteq> CHR '']'')"

fun backtrack :: "string \<Rightarrow> nat \<Rightarrow> string option" where
  "backtrack rest 0 = None"
| "backtrack rest (Suc k) =
     (let tok = takeWhile is_tok (drop (Suc k) rest)
      in if tok \<noteq> [] then Some tok else backtrack rest k)"

definition match_here :: "string \<Rightarrow> string option" where
  "match_here s =
     (if lower (take 6 s) = ''branch''
      then let rest = drop 6 s in backtrack rest (length (takeWhile is_sep rest))
      else None)"

fun re_search_branch :: "string \<Rightarrow> string option" where
  "re_search_branch [] = None"
| "re_search_branch (c # cs) =
     (case match_here (c # cs) of Some g \<Rightarrow> Some g | None \<Rightarrow> re_search_branch cs)"

definition extract_branch :: "json \<Rightarrow> exn + json" where
  "extract_branch build =
     bind (py_in ''actions'' build) (\<lambda>has_actions.
     bind (if has_actions
           then bind (py_get build ''actions'' (JList [])) (\<lambda>acts.
                bind (py_iter acts) (\<lambda>actions. for_each action_step actions JNull))
           else Inr JNull) (\<lambda>branch.
       if \<not> truthy branch
       then bind (py_get build ''fullDisplayName'' (JStr [])) (\<lambda>fd.
            bind (as_str ''lower'' fd) (\<lambda>full_display.
              if contains ''branch'' (lower full_display)
              then (case re_search_branch full_display of
                      Some g \<Rightarrow> Inr (JStr g)
                    | None \<Rightarrow> Inr branch)
              else Inr branch))
       else Inr branch))"

subsection \<open>\<^verbatim>\<open>_get_build_info\<close>: the build display name\<close>

text \<open>\<^verbatim>\<open>k in build and build[k]\<close>, as a condition.\<close>

definition present_and_truthy :: "json \<Rightarrow> string \<Rightarrow> exn + bool" where
  "present_and_truthy build k =
     bind (py_in k build) (\<lambda>has.
       if has then bind (py_getitem build k) (\<lambda>v. Inr (truthy v)) else Inr False)"

text \<open>\<^verbatim>\<open>full_display.startswith(job_name)\<close> and \<^verbatim>\<open>full_display[len(job_name):].strip()\<close>.\<close>

definition strip_job_prefix :: "json \<Rightarrow> json \<Rightarrow> exn + json" where
  "strip_job_prefix full_display job_name =
     bind (as_str ''startswith'' full_display) (\<lambda>fd.
       case job_name of
         JStr jn \<Rightarrow> if startswith fd jn then Inr (JStr (strip (drop (length jn) fd)))
                    else Inr full_display
       | _ \<Rightarrow> Inl (Exn TypeError (''startswith first arg must be str or a tuple of str, not ''
                      @ type_name job_name)))"

text \<open>The display name chosen from \<^verbatim>\<open>fullDisplayName\<close>, \<^verbatim>\<open>displayName\<close> or the number.\<close>

definition choose_display :: "json \<Rightarrow> json \<Rightarrow> json \<Rightarrow> exn + json" where
  "choose_display build job_name build_number =
     bind (present_and_truthy build ''fullDisplayName'') (\<lambda>c1.
       if c1 then bind (py_getitem build ''fullDisplayName'') (\<lambda>full_display.
                  strip_job_prefix full_display job_name)
       else bind (present_and_truthy build ''displayName'') (\<lambda>c2.
       if c2 then py_getitem build ''displayName''
       else Inr (JStr (''#'' @ py_str build_number))))"

text \<open>The two rewrites: an empty or blank name, then a name without a leading \<^verbatim>\<open>#\<close>.\<close>

definition number_display :: "json \<Rightarrow> json \<Rightarrow> exn + string" where
  "number_display build_display build_number =
     bind (if \<not> truthy build_display then Inr True
           else bind (as_str ''isspace'' build_display) (\<lambda>s. Inr (isspace s))) (\<lambda>blank.
     bind (as_str ''startswith''
             (if blank then JStr (''#'' @ py_str build_number) else build_display)) (\<lambda>s.
       if \<not> startswith s ''#'' then Inr (''#'' @ py_str build_number @ '' - '' @ s)
       else Inr s))"

text \<open>The branch suffix, with the special case of the displays that mention devops.\<close>

definition add_branch :: "string \<Rightarrow> json \<Rightarrow> string" where
  "add_branch build_display branch =
     (if contains '' - devops'' build_display \<and> truthy branch
      then (if \<not> contains ('' - ['' @ py_str branch @ '']'') build_display
            then build_display @ '' - ['' @ py_str branch @ '']''
            else build_display)
      else if truthy branch \<and> \<not> contains (''['' @ py_str branch @ '']'') build_display
      then build_display @ '' - ['' @ py_str branch @ '']''
      else build_display)"

definition resolve_build_display :: "json \<Rightarrow> json \<Rightarrow> json \<Rightarrow> json \<Rightarrow> exn + string" where
  "resolve_build_display build job_name build_number branch =
     bind (choose_display build job_name build_number) (\<lambda>d0.
     bind (number_display d0 build_number) (\<lambda>d1.
       Inr (add_branch d1 branch)))"

subsection \<open>\<^verbatim>\<open>_get_build_info\<close>: progress and remaining time\<close>

text \<open>
  \<^verbatim>\<open>'estimatedDuration' in build and build['estimatedDuration'] > 0 and 'timestamp' in build\<close>.
\<close>

definition has_estimate :: "json \<Rightarrow> exn + bool" where
  "has_estimate build =
     bind (py_in ''estimatedDuration'' build) (\<lambda>has_duration.
       if has_duration
       then bind (py_getitem build ''estimatedDuration'') (\<lambda>d.
            bind (py_gt0 d) (\<lambda>positive.
              if positive then py_in ''timestamp'' build else Inr False))
       else Inr False)"

text \<open>The estimated duration as a number, once \<open>has_estimate\<close> holds.\<close>

definition estimated_ms :: "json \<Rightarrow> exn + int" where
  "estimated_ms build =
     bind (py_getitem build ''estimatedDuration'') (\<lambda>d.
       case py_num d of
         Some n \<Rightarrow> Inr n
       | None \<Rightarrow> Inl (operand_error ''/'' ''int'' (type_name d)))"

text \<open>\<open>now\<close> is \<^verbatim>\<open>int(time.time() * 1000)\<close> as read for the progress.\<close>

definition progress_pct :: "int \<Rightarrow> json \<Rightarrow> exn + int" where
  "progress_pct now build =
     bind (has_estimate build) (\<lambda>c.
       if c
       then bind (py_getitem build ''timestamp'') (\<lambda>ts.
            bind (py_rsub now ts) (\<lambda>elapsed.
            bind (estimated_ms build) (\<lambda>est.
            bind (int_truediv elapsed est) (\<lambda>ratio.
            bind (py_int (float_mul_int ratio 100)) (\<lambda>pct.
              Inr (min 100 pct))))))
       else Inr 0)"

text \<open>
  \<^verbatim>\<open>minutes = int(time_remaining / 60000)\<close>,
  \<^verbatim>\<open>seconds = int((time_remaining % 60000) / 1000)\<close> and the text made of them.
\<close>

definition minutes_seconds :: "int \<Rightarrow> exn + string" where
  "minutes_seconds time_remaining =
     bind (int_truediv time_remaining 60000) (\<lambda>m.
     bind (int_truediv (time_remaining mod 60000) 1000) (\<lambda>s.
       Inr (str_int (float_trunc m) @ ''m '' @ str_int (float_trunc s) @ ''s'')))"

text \<open>\<open>now\<close> is \<^verbatim>\<open>int(time.time() * 1000)\<close> as read for the remaining time.\<close>

definition remaining_time :: "int \<Rightarrow> json \<Rightarrow> exn + string" where
  "remaining_time now build =
     bind (has_estimate build) (\<lambda>c.
       if c
       then bind (py_getitem build ''timestamp'') (\<lambda>ts.
            bind (py_rsub now ts) (\<lambda>time_elapsed.
            bind (estimated_ms build) (\<lambda>est.
              let time_remaining = est - time_elapsed
              in if time_remaining \<le> 0 then Inr ''Overdue''
                 else minutes_seconds time_remaining)))
       else Inr ''Unknown'')"

subsection \<open>\<^verbatim>\<open>_get_build_info\<close>\<close>

record build_info =
  id' :: json
  job_name :: json
  build_number :: json
  build_display :: string
  estimated_duration :: string
  progress :: int
  remaining :: string
  url :: json
  timestamp :: json
  branch :: json

text \<open>
  \<open>now_p\<close> and \<open>now_r\<close> are the two readings of the clock. The first statement prints
  \<^verbatim>\<open>build.keys()\<close>, which a value other than a dict does not have; logging has no other
  effect on the result.
\<close>

definition get_build_info :: "int \<Rightarrow> int \<Rightarrow> json \<Rightarrow> exn + build_info" where
  "get_build_info now_p now_r build =
     (case build of
        JObj kvs \<Rightarrow>
          bind (resolve_job_name build) (\<lambda>job_name.
          bind (py_get build ''number'' (JStr ''N/A'')) (\<lambda>build_number.
          bind (extract_branch build) (\<lambda>branch.
          bind (resolve_build_display build job_name build_number branch) (\<lambda>build_display.
          bind (progress_pct now_p build) (\<lambda>progress_pct.
          bind (remaining_time now_r build) (\<lambda>remaining.
          bind (py_get build ''id'' (JStr ''unknown'')) (\<lambda>id.
          bind (py_get build ''estimatedDuration'' (JInt 0)) (\<lambda>d.
          bind (py_truediv d 60000) (\<lambda>minutes.
          bind (py_get build ''url'' (JStr [])) (\<lambda>url.
          bind (py_get build ''timestamp'' (JInt 0)) (\<lambda>timestamp.
            Inr \<lparr> id' = id, job_name = job_name, build_number = build_number,
                  build_display = build_display,
                  estimated_duration = format_1f minutes @ ''m'',
                  progress = progress_pct, remaining = remaining, url = url,
                  timestamp = timestamp, branch = branch \<rparr>)))))))))))
      | _ \<Rightarrow> Inl (attribute_error build ''keys''))"

subsection \<open>\<^verbatim>\<open>_get_completed_build_info\<close>\<close>

record completed_info =
  c_id :: json
  c_job_name :: json
  c_build_number :: json
  result :: json
  duration :: string
  c_timestamp :: string
  c_url :: json
  c_branch :: json

definition completed_job_name :: "json \<Rightarrow> exn + json" where
  "completed_job_name build =
     bind (py_in ''jobName'' build) (\<lambda>c1.
       if c1 then py_getitem build ''jobName''
       else bind (py_in ''fullDisplayName'' build) (\<lambda>c2.
       if c2 then bind (py_getitem build ''fullDisplayName'') (\<lambda>fd.
                  bind (as_str ''split'' fd) (\<lambda>full_display.
                    let parts = split1 full_display '' #''
                    in if length parts = 2 then Inr (JStr (parts ! 0))
                       else bind (py_get build ''url'' (JStr [])) get_job_name_from_url))
       else bind (py_get build ''url'' (JStr [])) get_job_name_from_url))"

text \<open>The simplified branch extraction: the parameters of every action, nothing else.\<close>

definition completed_action_step :: "json \<Rightarrow> json \<Rightarrow> exn + json" where
  "completed_action_step action found =
     bind (py_in ''parameters'' action) (\<lambda>has_parameters.
       if has_parameters
       then bind (py_getitem action ''parameters'') (\<lambda>ps.
            bind (py_iter ps) (\<lambda>params. scan_parameters params found))
       else Inr found)"

definition completed_branch :: "json \<Rightarrow> exn + json" where
  "completed_branch build =
     bind (py_in ''actions'' build) (\<lambda>has_actions.
       if has_actions
       then bind (py_get build ''actions'' (JList [])) (\<lambda>acts.
            bind (py_iter acts) (\<lambda>actions. for_each completed_action_step actions JNull))
       else Inr JNull)"

text \<open>
  \<open>fromtimestamp\<close> stands for \<^verbatim>\<open>datetime.fromtimestamp(x).strftime('%Y-%m-%d %H:%M:%S')\<close>,
  the local-time conversion of the platform, which raises outside its range.
\<close>

definition get_completed_build_info :: "(float64 \<Rightarrow> exn + string) \<Rightarrow> json \<Rightarrow> exn + completed_info" where
  "get_completed_build_info fromtimestamp build =
     bind (completed_job_name build) (\<lambda>job_name.
     bind (py_get build ''number'' (JStr ''N/A'')) (\<lambda>build_number.
     bind (py_get build ''result'' (JStr ''UNKNOWN'')) (\<lambda>result.
     bind (py_get build ''duration'' (JInt 0)) (\<lambda>duration_ms.
     bind (py_truediv duration_ms 60000) (\<lambda>minutes.
     bind (py_get build ''timestamp'' (JInt 0)) (\<lambda>timestamp_ms.
     bind (py_truediv timestamp_ms 1000) (\<lambda>seconds.
     bind (fromtimestamp seconds) (\<lambda>timestamp.
     bind (completed_branch build) (\<lambda>branch.
     bind (py_get build ''id'' (JStr ''unknown'')) (\<lambda>id.
     bind (py_get build ''url'' (JStr [])) (\<lambda>url.
       Inr \<lparr> c_id = id, c_job_name = job_name, c_build_number = build_number,
             result = result, duration = format_1f minutes @ ''m'',
             c_timestamp = timestamp, c_url = url, c_branch = branch \<rparr>)))))))))))"

subsection \<open>\<^verbatim>\<open>_get_queue_info\<close>\<close>

record queue_info =
  q_id :: json
  q_job_name :: json
  why :: json
  waiting_time :: string
  waiting_ms :: int
  queued_since :: json

text \<open>\<^verbatim>\<open>'task' in queue_item and 'name' in queue_item['task']\<close>.\<close>

definition in_task :: "json \<Rightarrow> exn + bool" where
  "in_task queue_item =
     bind (py_in ''task'' queue_item) (\<lambda>has_task.
       if has_task then bind (py_getitem queue_item ''task'') (py_in ''name'') else Inr False)"

definition get_queue_info :: "int \<Rightarrow> json \<Rightarrow> exn + queue_info" where
  "get_queue_info now queue_item =
     bind (in_task queue_item) (\<lambda>c.
     bind (if c then bind (py_getitem queue_item ''task'') (\<lambda>task. py_getitem task ''name'')
           else Inr (JStr ''Unknown'')) (\<lambda>job_name.
     bind (py_get queue_item ''why'' (JStr ''Unknown reason'')) (\<lambda>why.
     bind (py_in ''inQueueSince'' queue_item) (\<lambda>has_since.
     bind (if has_since
           then bind (py_getitem queue_item ''inQueueSince'') (\<lambda>queue_time_ms.
                bind (py_rsub now queue_time_ms) (\<lambda>waiting_ms.
                bind (int_truediv waiting_ms 60000) (\<lambda>m.
                bind (int_truediv (waiting_ms mod 60000) 1000) (\<lambda>s.
                  let minutes = float_trunc m; seconds = float_trunc s
                  in Inr (if 0 < minutes
                          then str_int minutes @ ''m '' @ str_int seconds @ ''s''
                          else str_int seconds @ ''s'', waiting_ms)))))
           else Inr (''Unknown'', 0)) (\<lambda>(queue_time, waiting_ms).
     bind (py_get queue_item ''id'' (JStr ''N/A'')) (\<lambda>id.
     bind (py_get queue_item ''inQueueSince'' (JInt 0)) (\<lambda>since.
       Inr \<lparr> q_id = id, q_job_name = job_name, why = why, waiting_time = queue_time,
             waiting_ms = waiting_ms, queued_since = since \<rparr>)))))))"

section \<open>The connector (jenkins_connector.py)\<close>

text \<open>
  \<open>get_jenkins_info\<close> is the transport: for an endpoint it returns the decoded JSON
  (or the text of the response, a string) or raises. It is a parameter \<open>info\<close> of
  every method modelled here.
\<close>

type_synonym transport = "string \<Rightarrow> exn + json"

text \<open>\<^verbatim>\<open>v[k] = x\<close>.\<close>

definition py_setitem :: "json \<Rightarrow> string \<Rightarrow> json \<Rightarrow> exn + json" where
  "py_setitem v k x =
     (case v of
        JObj kvs \<Rightarrow> Inr (JObj (AList.update k x kvs))
      | JList xs \<Rightarrow> Inl (Exn TypeError ''list indices must be integers or slices, not str'')
      | _ \<Rightarrow> Inl (Exn TypeError
                 (quoted (type_name v) @ '' object does not support item assignment'')))"

text \<open>
  The member of the set \<^verbatim>\<open>seen_builds\<close> that a value is: lists and dicts cannot be
  hashed, and \<^verbatim>\<open>True\<close> is the same member as 1.
\<close>

definition hash_key :: "json \<Rightarrow> exn + json" where
  "hash_key v =
     (case v of
        JList xs \<Rightarrow> Inl (Exn TypeError (''unhashable type: '' @ quoted ''list''))
      | JObj kvs \<Rightarrow> Inl (Exn TypeError (''unhashable type: '' @ quoted ''dict''))
      | JBool b \<Rightarrow> Inr (JInt (if b then 1 else 0))
      | _ \<Rightarrow> Inr v)"

subsection \<open>\<^verbatim>\<open>get_build_queue\<close>\<close>

definition get_build_queue :: "transport \<Rightarrow> json" where
  "get_build_queue info =
     (case bind (info ''/queue/api/json'') (\<lambda>queue_info.
             bind (if truthy queue_info then py_in ''items'' queue_info else Inr False) (\<lambda>c.
               if c then py_getitem queue_info ''items'' else Inr (JList [])))
      of Inl e \<Rightarrow> JList [] | Inr items \<Rightarrow> items)"

subsection \<open>\<^verbatim>\<open>get_running_builds\<close>\<close>

text \<open>The statements that add the job names to a build.\<close>

definition add_job_names :: "json \<Rightarrow> exn + json" where
  "add_job_names build =
     bind (in_job build ''name'') (\<lambda>c.
       if c
       then bind (py_getitem build ''job'') (\<lambda>job.
            bind (py_getitem job ''name'') (\<lambda>name.
            bind (py_setitem build ''jobName'' name) (\<lambda>b1.
            bind (py_in ''fullName'' job) (\<lambda>has_full.
            bind (if has_full
                  then bind (py_getitem job ''fullName'') (py_setitem b1 ''jobFullName'')
                  else Inr b1) (\<lambda>b2.
            bind (py_in ''displayName'' job) (\<lambda>has_display.
              if has_display
              then bind (py_getitem job ''displayName'') (py_setitem b2 ''jobDisplayName'')
              else Inr b2))))))
       else Inr build)"

text \<open>The statements that set its display name.\<close>

definition add_display_name :: "json \<Rightarrow> exn + json" where
  "add_display_name build =
     bind (present_and_truthy build ''fullDisplayName'') (\<lambda>c.
       if c then bind (py_getitem build ''fullDisplayName'') (py_setitem build ''displayName'')
       else bind (py_in ''displayName'' build) (\<lambda>has.
         if \<not> has
         then bind (py_get build ''number'' (JStr ''N/A'')) (\<lambda>n.
                py_setitem build ''displayName'' (JStr (''#'' @ py_str n)))
         else Inr build))"

definition enhance_build :: "json \<Rightarrow> exn + json" where
  "enhance_build build = bind (add_job_names build) add_display_name"

text \<open>
  The body of both executor loops, on the state \<open>(running_builds, seen_builds)\<close>:
  a build is appended when its url is truthy and not yet seen.
\<close>

definition executor_step :: "json \<Rightarrow> json list \<times> json list \<Rightarrow> exn + json list \<times> json list" where
  "executor_step executor st =
     bind (py_get executor ''currentExecutable'' JNull) (\<lambda>current.
       if truthy current
       then bind (py_getitem executor ''currentExecutable'') (\<lambda>build.
            bind (py_get build ''url'' JNull) (\<lambda>build_url.
            bind (if truthy build_url
                  then bind (hash_key build_url) (\<lambda>k. Inr (k \<notin> set (snd st)))
                  else Inr False) (\<lambda>unseen.
              if unseen
              then bind (enhance_build build) (\<lambda>b.
                   bind (hash_key build_url) (\<lambda>k. Inr (fst st @ [b], k # snd st)))
              else Inr st)))
       else Inr st)"

definition executors_loop :: "string \<Rightarrow> json \<Rightarrow> json list \<times> json list \<Rightarrow> exn + json list \<times> json list" where
  "executors_loop key node st =
     bind (py_in key node) (\<lambda>has.
       if has then bind (py_getitem node key) (\<lambda>es.
                   bind (py_iter es) (\<lambda>executors. for_each executor_step executors st))
       else Inr st)"

definition node_step :: "json \<Rightarrow> json list \<times> json list \<Rightarrow> exn + json list \<times> json list" where
  "node_step node st =
     bind (executors_loop ''executors'' node st) (executors_loop ''oneOffExecutors'' node)"

definition computer_endpoint :: string where
  "computer_endpoint = ''/computer/api/json''"

text \<open>The method, from what \<^verbatim>\<open>get_jenkins_info\<close> does for the computer endpoint.\<close>

definition running_builds_from :: "exn + json \<Rightarrow> json" where
  "running_builds_from response =
     (case bind response (\<lambda>computer_info.
             bind (if truthy computer_info then py_in ''computer'' computer_info
                   else Inr False) (\<lambda>c.
               if c then bind (py_getitem computer_info ''computer'') (\<lambda>cs.
                         bind (py_iter cs) (\<lambda>nodes.
                         bind (for_each node_step nodes ([], [])) (\<lambda>st. Inr (fst st))))
               else Inr []))
      of Inl e \<Rightarrow> JList [] | Inr running_builds \<Rightarrow> JList running_builds)"

definition get_running_builds :: "transport \<Rightarrow> json" where
  "get_running_builds info = running_builds_from (info computer_endpoint)"

subsection \<open>\<^verbatim>\<open>list_jobs\<close>, \<^verbatim>\<open>get_job_info\<close>, \<^verbatim>\<open>get_build_info\<close>\<close>

text \<open>\<^verbatim>\<open>urllib.parse.quote\<close> with its default safe character \<^verbatim>\<open>/\<close>.\<close>

definition always_safe :: "char \<Rightarrow> bool" where
  "always_safe c =
     (let n = (of_char c :: nat)
      in (0x41 \<le> n \<and> n \<le> 0x5A) \<or> (0x61 \<le> n \<and> n \<le> 0x7A) \<or> (0x30 \<le> n \<and> n \<le> 0x39)
         \<or> c \<in> set ''_.-~/'')"

definition upper_hex :: "nat \<Rightarrow> char" where
  "upper_hex d = (if d < 10 then char_of (0x30 + d) else char_of (0x37 + d))"

definition percent :: "nat \<Rightarrow> string" where
  "percent b = [CHR ''%'', upper_hex (b div 16), upper_hex (b mod 16)]"

definition utf8 :: "char \<Rightarrow> nat list" where
  "utf8 c = (let n = (of_char c :: nat)
             in if n < 0x80 then [n] else [0xC0 + n div 64, 0x80 + n mod 64])"

definition quote_char :: "char \<Rightarrow> string" where
  "quote_char c = (if always_safe c then [c] else concat (map percent (utf8 c)))"

definition quote :: "json \<Rightarrow> exn + string" where
  "quote v =
     (case v of
        JStr s \<Rightarrow> Inr (concat (map quote_char s))
      | _ \<Rightarrow> Inl (Exn TypeError ''quote_from_bytes() expected bytes''))"

definition list_jobs :: "transport \<Rightarrow> json list" where
  "list_jobs info =
     (case bind (info ''/api/json'') (\<lambda>i.
             bind (if truthy i then py_in ''jobs'' i else Inr False) (\<lambda>c.
               if c then bind (py_getitem i ''jobs'') (\<lambda>js.
                         bind (py_iter js) (map_exn (\<lambda>job. py_getitem job ''name'')))
               else Inr []))
      of Inl e \<Rightarrow> [] | Inr names \<Rightarrow> names)"

text \<open>Both return \<^verbatim>\<open>None\<close> when anything raises.\<close>

definition get_job_info :: "transport \<Rightarrow> json \<Rightarrow> json" where
  "get_job_info info name =
     (case bind (quote name) (\<lambda>encoded_job_name.
             info (''/job/'' @ encoded_job_name @ ''/api/json''))
      of Inl e \<Rightarrow> JNull | Inr v \<Rightarrow> v)"

definition connector_get_build_info :: "transport \<Rightarrow> json \<Rightarrow> json \<Rightarrow> json" where
  "connector_get_build_info info name number =
     (case bind (quote name) (\<lambda>encoded_job_name.
             info (''/job/'' @ encoded_job_name @ ''/'' @ py_str number @ ''/api/json''))
      of Inl e \<Rightarrow> JNull | Inr v \<Rightarrow> v)"

subsection \<open>\<^verbatim>\<open>get_latest_builds\<close>\<close>

text \<open>
  The body of the inner \<^verbatim>\<open>try\<close>, for one job: the build it appends to
  \<^verbatim>\<open>all_builds\<close>, if any.
\<close>

definition last_build_of :: "transport \<Rightarrow> json \<Rightarrow> exn + json option" where
  "last_build_of info name =
     (let job_info = get_job_info info name
      in bind (if truthy job_info then present_and_truthy job_info ''lastBuild''
               else Inr False) (\<lambda>c.
           if c
           then bind (py_getitem job_info ''lastBuild'') (\<lambda>last_build.
                bind (py_get last_build ''number'' JNull) (\<lambda>last_build_number.
                  if truthy last_build_number
                  then let build_info = connector_get_build_info info name last_build_number
                       in if truthy build_info
                          then bind (py_setitem build_info ''jobName'' name) (\<lambda>b. Inr (Some b))
                          else Inr None
                  else Inr None))
           else Inr None))"

text \<open>The loop over the jobs: an exception in the body is logged and the job skipped.\<close>

fun collect_builds :: "transport \<Rightarrow> json list \<Rightarrow> json list" where
  "collect_builds info [] = []"
| "collect_builds info (name # names) =
     (case last_build_of info name of
        Inr (Some b) \<Rightarrow> b # collect_builds info names
      | _ \<Rightarrow> collect_builds info names)"

text \<open>
  \<^verbatim>\<open>sorted(all_builds, key=lambda x: x.get('timestamp', 0), reverse=True)\<close>.
  A reversed sort reverses the list, sorts it stably and reverses it again. Numbers are
  comparable with numbers and strings with strings; between other values \<^verbatim>\<open><\<close> raises
  (keys that are all lists would be compared element by element, which is not modelled:
  they raise here as well, with a text that names the types of the first two keys).
\<close>

definition num_key :: "json \<Rightarrow> int" where
  "num_key b = (case py_get b ''timestamp'' (JInt 0) of
                  Inr v \<Rightarrow> (case py_num v of Some n \<Rightarrow> n | None \<Rightarrow> 0)
                | Inl e \<Rightarrow> 0)"

definition str_key :: "json \<Rightarrow> string" where
  "str_key b = (case py_get b ''timestamp'' (JInt 0) of
                  Inr (JStr s) \<Rightarrow> s
                | _ \<Rightarrow> [])"

definition is_str :: "json \<Rightarrow> bool" where
  "is_str v = (case v of JStr s \<Rightarrow> True | _ \<Rightarrow> False)"

definition sorted_by_timestamp :: "json list \<Rightarrow> exn + json list" where
  "sorted_by_timestamp builds =
     bind (map_exn (\<lambda>b. py_get b ''timestamp'' (JInt 0)) builds) (\<lambda>keys.
       if list_all (\<lambda>k. py_num k \<noteq> None) keys then Inr (rev (sort_key num_key (rev builds)))
       else if list_all is_str keys then Inr (rev (sort_key str_key (rev builds)))
       else if length builds \<le> 1 then Inr builds
       else Inl (Exn TypeError (quoted ''<'' @ '' not supported between instances of ''
                   @ quoted (type_name (keys ! 1)) @ '' and '' @ quoted (type_name (keys ! 0)))))"

definition get_latest_builds :: "transport \<Rightarrow> nat \<Rightarrow> json" where
  "get_latest_builds info limit =
     (case sorted_by_timestamp (collect_builds info (list_jobs info))
      of Inl e \<Rightarrow> JList [] | Inr sorted_builds \<Rightarrow> JList (take limit sorted_builds))"

section \<open>The refresh cache (jenkins_dashboard_core_docker.py)\<close>

record snapshot =
  running_builds :: "build_info list"
  queued_builds :: "queue_info list"
  latest_builds :: "completed_info list"
  snap_timestamp :: string
  error :: "string option"

text \<open>What the three calls to the connector do in one cycle: a value or an exception.\<close>

record fetcher =
  fetch_running :: "exn + json"
  fetch_queue :: "exn + json"
  fetch_latest :: "exn + json"

text \<open>
  The rest of the environment of one cycle: the readings of the clock taken while the
  \<open>i\<close>-th running build (\<open>clock_p\<close>, \<open>clock_r\<close>) and the \<open>i\<close>-th queue item (\<open>clock_q\<close>)
  are formatted, the local-time conversion, and \<^verbatim>\<open>datetime.now().strftime(...)\<close> at
  the publication and in the handler.
\<close>

record env =
  clock_p :: "nat \<Rightarrow> int"
  clock_r :: "nat \<Rightarrow> int"
  clock_q :: "nat \<Rightarrow> int"
  fromtimestamp :: "float64 \<Rightarrow> exn + string"
  now_str :: string
  handler_now_str :: string

text \<open>\<^verbatim>\<open>xs.sort(key=..., reverse=True)\<close> on an integer key.\<close>

definition sort_desc :: "('a \<Rightarrow> int) \<Rightarrow> 'a list \<Rightarrow> 'a list" where
  "sort_desc key xs = rev (sort_key key (rev xs))"

text \<open>The three guarded queries: the formatted list and the error messages they add.\<close>

definition refresh_running :: "env \<Rightarrow> fetcher \<Rightarrow> build_info list \<times> string list" where
  "refresh_running en f =
     (case bind (fetch_running f) (\<lambda>rb.
             bind (py_iter rb) (\<lambda>builds.
             bind (map_exn (\<lambda>ib. get_build_info (clock_p en (fst ib)) (clock_r en (fst ib)) (snd ib))
                     (enumerate 0 builds)) (\<lambda>formatted_builds.
               Inr (sort_desc progress formatted_builds))))
      of Inr formatted_builds \<Rightarrow> (formatted_builds, [])
       | Inl e \<Rightarrow> ([], [''Error fetching running builds: '' @ exn_str e]))"

definition refresh_queue :: "env \<Rightarrow> fetcher \<Rightarrow> queue_info list \<times> string list" where
  "refresh_queue en f =
     (case bind (fetch_queue f) (\<lambda>qb.
             bind (py_iter qb) (\<lambda>items.
             bind (map_exn (\<lambda>ib. get_queue_info (clock_q en (fst ib)) (snd ib))
                     (enumerate 0 items)) (\<lambda>formatted_queue.
               Inr (sort_desc waiting_ms formatted_queue))))
      of Inr formatted_queue \<Rightarrow> (formatted_queue, [])
       | Inl e \<Rightarrow> ([], [''Error fetching queued builds: '' @ exn_str e]))"

definition refresh_latest :: "env \<Rightarrow> fetcher \<Rightarrow> completed_info list \<times> string list" where
  "refresh_latest en f =
     (case bind (fetch_latest f) (\<lambda>lb.
             bind (py_iter lb) (map_exn (get_completed_build_info (fromtimestamp en))))
      of Inr formatted_latest \<Rightarrow> (formatted_latest, [])
       | Inl e \<Rightarrow> ([], [''Error fetching latest builds: '' @ exn_str e]))"

text \<open>The dictionary that a cycle builds.\<close>

definition new_snapshot :: "env \<Rightarrow> fetcher \<Rightarrow> snapshot" where
  "new_snapshot en f =
     (let r = refresh_running en f; q = refresh_queue en f; l = refresh_latest en f;
          errors = snd r @ snd q @ snd l
      in \<lparr> running_builds = fst r, queued_builds = fst q, latest_builds = fst l,
            snap_timestamp = now_str en,
            error = (if errors \<noteq> [] then Some (join ''; '' errors) else None) \<rparr>)"

text \<open>
  The state of a \<^verbatim>\<open>JenkinsDashboardData\<close>: the snapshot dictionaries allocated so far,
  by address, and \<^verbatim>\<open>self.dashboard_data\<close>, the address of the published one.
\<close>

record dashboard =
  heap :: "snapshot list"
  dashboard_data :: nat

definition init_dashboard :: "string \<Rightarrow> dashboard" where
  "init_dashboard now =
     \<lparr> heap = [\<lparr> running_builds = [], queued_builds = [], latest_builds = [],
                 snap_timestamp = now, error = None \<rparr>],
       dashboard_data = 0 \<rparr>"

text \<open>\<^verbatim>\<open>self.dashboard_data = {...}\<close>: a new object, and the reference moves to it.\<close>

definition publish :: "snapshot \<Rightarrow> dashboard \<Rightarrow> dashboard" where
  "publish s d = d\<lparr> heap := heap d @ [s], dashboard_data := length (heap d) \<rparr>"

text \<open>\<^verbatim>\<open>self.dashboard_data[k] = v\<close>: the published object itself changes.\<close>

definition set_error :: "string \<Rightarrow> dashboard \<Rightarrow> dashboard" where
  "set_error msg d =
     d\<lparr> heap := (heap d)[dashboard_data d := (heap d ! dashboard_data d)\<lparr> error := Some msg \<rparr>] \<rparr>"

definition set_timestamp :: "string \<Rightarrow> dashboard \<Rightarrow> dashboard" where
  "set_timestamp t d =
     d\<lparr> heap := (heap d)[dashboard_data d := (heap d ! dashboard_data d)\<lparr> snap_timestamp := t \<rparr>] \<rparr>"

text \<open>
  An exception raised in the outer \<^verbatim>\<open>try\<close> of \<^verbatim>\<open>refresh_data\<close> outside the three
  guarded queries (by the logger, the clock or a handler of a query): whether it comes
  after the assignment to \<^verbatim>\<open>self.dashboard_data\<close>, the exception, and the exception
  that \<^verbatim>\<open>str(e)\<close> raises in the outer handler, if it does.
\<close>

datatype fault = NoFault | Raised bool exn "exn option"

text \<open>The result is the exception that leaves \<^verbatim>\<open>refresh_data\<close>, if any, and the new state.\<close>

definition refresh_data :: "env \<Rightarrow> fetcher \<Rightarrow> fault \<Rightarrow> dashboard \<Rightarrow> exn option \<times> dashboard" where
  "refresh_data en f flt d =
     (case flt of
        NoFault \<Rightarrow> (None, publish (new_snapshot en f) d)
      | Raised published e in_handler \<Rightarrow>
          (let d1 = (if published then publish (new_snapshot en f) d else d)
           in case in_handler of
                Some e2 \<Rightarrow> (Some e2, d1)
              | None \<Rightarrow> (None, set_timestamp (handler_now_str en) (set_error (exn_str e) d1))))"

text \<open>One turn of the loop of \<^verbatim>\<open>_refresh_data_thread\<close>; the sleep changes nothing.\<close>

definition refresh_cycle :: "env \<times> fetcher \<times> fault \<Rightarrow> dashboard \<Rightarrow> dashboard" where
  "refresh_cycle c d =
     (case refresh_data (fst c) (fst (snd c)) (snd (snd c)) d of
        (None, d') \<Rightarrow> d'
      | (Some e, d') \<Rightarrow> set_error (exn_str e) d')"

text \<open>The loop runs one cycle after the other until \<^verbatim>\<open>stop_thread\<close> is set.\<close>

fun refresh_data_thread :: "(env \<times> fetcher \<times> fault) list \<Rightarrow> dashboard \<Rightarrow> dashboard" where
  "refresh_data_thread [] d = d"
| "refresh_data_thread (c # cs) d = refresh_data_thread cs (refresh_cycle c d)"

definition get_data :: "dashboard \<Rightarrow> snapshot" where
  "get_data d = heap d ! dashboard_data d"

text \<open>The fetcher that the connector is, over a transport.\<close>

definition jenkins_connector :: "transport \<Rightarrow> fetcher" where
  "jenkins_connector info =
     \<lparr> fetch_running = Inr (get_running_builds info),
       fetch_queue = Inr (get_build_queue info),
       fetch_latest = Inr (get_latest_builds info 20) \<rparr>"

section \<open>Example inputs\<close>

text \<open>A transport whose every request fails.\<close>

definition failed_transport :: transport where
  "failed_transport ep = Inl (Exn OtherError ''connection refused'')"

text \<open>An environment whose clock stands still at \<open>now\<close>.\<close>

definition frozen_env :: "int \<Rightarrow> env" where
  "frozen_env now =
     \<lparr> clock_p = (\<lambda>i. now), clock_r = (\<lambda>i. now), clock_q = (\<lambda>i. now),
       fromtimestamp = (\<lambda>x. Inr ''2025-01-01 00:00:00''),
       now_str = ''2025-01-01 00:00:01'', handler_now_str = ''2025-01-01 00:00:02'' \<rparr>"

text \<open>A running build that started at \<open>ts\<close> and is estimated to take ten minutes.\<close>

definition running_build :: "int \<Rightarrow> json" where
  "running_build ts =
     JObj [(''number'', JInt 42), (''estimatedDuration'', JInt 600000), (''timestamp'', JInt ts)]"

text \<open>The example of the specification: \<^verbatim>\<open>myjob #42 nightly\<close>.\<close>

definition nightly_build :: json where
  "nightly_build =
     JObj [(''jobName'', JStr ''myjob''), (''number'', JInt 42),
           (''fullDisplayName'', JStr ''myjob #42 nightly'')]"

text \<open>A cycle in which the queue fails and the two other queries succeed.\<close>

definition queue_down :: fetcher where
  "queue_down =
     \<lparr> fetch_running = Inr (JList [running_build 700000]),
       fetch_queue = Inl (Exn OtherError ''queue down''),
       fetch_latest = Inr (JList [JObj [(''jobName'', JStr ''myjob''), (''number'', JInt 41)]]) \<rparr>"

definition first_dashboard :: dashboard where
  "first_dashboard = init_dashboard ''2025-01-01 00:00:00''"

text \<open>
  A node on which the build \<^verbatim>\<open>u1\<close> is listed under an executor and under a one-off
  executor, and a node whose only build has no url.
\<close>

definition two_slots :: json where
  "two_slots =
     JObj [(''computer'', JList
       [JObj [(''executors'', JList
                [JObj [(''currentExecutable'', JObj [(''url'', JStr ''u1''), (''number'', JInt 3)])]]),
              (''oneOffExecutors'', JList
                [JObj [(''currentExecutable'', JObj [(''url'', JStr ''u1''), (''number'', JInt 4)])]])]])]"

definition no_url_slot :: json where
  "no_url_slot =
     JObj [(''computer'', JList
       [JObj [(''executors'', JList
                [JObj [(''currentExecutable'',
                         JObj [(''number'', JInt 9), (''fullDisplayName'', JStr ''job #9'')])]])]])]"

section \<open>The specification's formulas\<close>

text \<open>
  The progress as the specification words it:
  \<^verbatim>\<open>clamp(0, 100, round(100 * (now - timestamp) / estimatedDuration))\<close>.
\<close>

definition spec_progress :: "int \<Rightarrow> int \<Rightarrow> int \<Rightarrow> int" where
  "spec_progress now ts est =
     max 0 (min 100 (round (of_int (100 * (now - ts)) / of_int est :: rat)))"

text \<open>The build label as the specification words its two rewrites.\<close>

definition spec_build_label :: "string \<Rightarrow> json \<Rightarrow> string" where
  "spec_build_label label number =
     (if label = [] \<or> isspace label then ''#'' @ py_str number
      else if \<not> startswith label ''#'' then ''#'' @ py_str number @ '' - '' @ label
      else label)"

text \<open>
  What a later state keeps of an earlier one: every snapshot object of the earlier heap
  is still there, with the same three lists.
\<close>

definition lists_kept :: "dashboard \<Rightarrow> dashboard \<Rightarrow> bool" where
  "lists_kept d d' \<longleftrightarrow>
     length (heap d) \<le> length (heap d') \<and>
     (\<forall>a < length (heap d).
        running_builds (heap d' ! a) = running_builds (heap d ! a) \<and>
        queued_builds (heap d' ! a) = queued_builds (heap d ! a) \<and>
        latest_builds (heap d' ! a) = latest_builds (heap d ! a))"

text \<open>
  The member of \<^verbatim>\<open>seen_builds\<close> that the url of a build is, and whether the build has a
  url at all (one that is not \<^verbatim>\<open>None\<close>, empty or zero).
\<close>

definition build_url_key :: "json \<Rightarrow> json option" where
  "build_url_key b =
     (case py_get b ''url'' JNull of
        Inr u \<Rightarrow> (case hash_key u of Inr k \<Rightarrow> Some k | Inl e \<Rightarrow> None)
      | Inl e \<Rightarrow> None)"

definition has_url :: "json \<Rightarrow> bool" where
  "has_url b = (case py_get b ''url'' JNull of Inr u \<Rightarrow> truthy u | Inl e \<Rightarrow> False)"

text \<open>
  The invariant of the walk over the executors: the builds collected so far have the
  urls seen so far, each once, and every one of them has a url.
\<close>

definition dedup_inv :: "json list \<times> json list \<Rightarrow> bool" where
  "dedup_inv st \<longleftrightarrow>
     map build_url_key (fst st) = map Some (rev (snd st)) \<and> distinct (snd st) \<and>
     list_all has_url (fst st)"

section \<open>Well-typed build records\<close>

text \<open>
  The types at which \<open>get_build_info\<close> reads the fields of a record: strings for the
  names, the url and the display names, a mapping with string names for the job, a
  list of mappings for the actions (with lists of mappings for their parameters and
  causes, whose name and description are strings), and integers below \<open>2 ^ 63\<close> in
  magnitude for the estimated duration and the timestamp. Every key may be absent.
\<close>

definition opt_str :: "(string \<times> json) list \<Rightarrow> string \<Rightarrow> bool" where
  "opt_str kvs k = (case map_of kvs k of None \<Rightarrow> True | Some v \<Rightarrow> is_str v)"

definition opt_int :: "(string \<times> json) list \<Rightarrow> string \<Rightarrow> bool" where
  "opt_int kvs k =
     (case map_of kvs k of None \<Rightarrow> True | Some (JInt n) \<Rightarrow> \<bar>n\<bar> < 2 ^ 63 | Some _ \<Rightarrow> False)"

definition opt_list :: "(json \<Rightarrow> bool) \<Rightarrow> (string \<times> json) list \<Rightarrow> string \<Rightarrow> bool" where
  "opt_list P kvs k =
     (case map_of kvs k of None \<Rightarrow> True | Some (JList xs) \<Rightarrow> list_all P xs | Some _ \<Rightarrow> False)"

definition wt_param :: "json \<Rightarrow> bool" where
  "wt_param p = (case p of JObj kvs \<Rightarrow> opt_str kvs ''name'' | _ \<Rightarrow> False)"

definition wt_cause :: "json \<Rightarrow> bool" where
  "wt_cause c = (case c of JObj kvs \<Rightarrow> opt_str kvs ''shortDescription'' | _ \<Rightarrow> False)"

definition wt_action :: "json \<Rightarrow> bool" where
  "wt_action a =
     (case a of
        JObj kvs \<Rightarrow> opt_list wt_param kvs ''parameters'' \<and> opt_list wt_cause kvs ''causes''
      | _ \<Rightarrow> False)"

definition wt_job :: "(string \<times> json) list \<Rightarrow> bool" where
  "wt_job kvs =
     (case map_of kvs ''job'' of
        None \<Rightarrow> True
      | Some (JObj js) \<Rightarrow> opt_str js ''name'' \<and> opt_str js ''fullName''
      | Some _ \<Rightarrow> False)"

definition well_typed_build :: "json \<Rightarrow> bool" where
  "well_typed_build b =
     (case b of
        JObj kvs \<Rightarrow>
          opt_str kvs ''jobName'' \<and> opt_str kvs ''jobFullName'' \<and>
          opt_str kvs ''jobDisplayName'' \<and> wt_job kvs \<and> opt_str kvs ''url'' \<and>
          opt_list wt_action kvs ''actions'' \<and> opt_str kvs ''fullDisplayName'' \<and>
          opt_str kvs ''displayName'' \<and> opt_int kvs ''estimatedDuration'' \<and>
          opt_int kvs ''timestamp''
      | _ \<Rightarrow> False)"

text \<open>The class of the exception that a result is, if it is one.\<close>

definition raised :: "exn + 'a \<Rightarrow> exn_class option" where
  "raised r = (case r of Inl (Exn c msg) \<Rightarrow> Some c | Inr x \<Rightarrow> None)"

text \<open>A record with a nested job, parameters and causes.\<close>

definition pipeline_build :: json where
  "pipeline_build =
     JObj [(''id'', JStr ''17''), (''number'', JInt 17),
           (''job'', JObj [(''name'', JStr ''deploy'')]),
           (''url'', JStr ''http://jenkins/job/deploy/17/''),
           (''fullDisplayName'', JStr ''deploy #17''),
           (''actions'', JList
              [JObj [(''causes'', JList [JObj [(''shortDescription'', JStr ''Started by user'')]])],
               JObj [],
               JObj [(''parameters'',
                        JList [JObj [(''name'', JStr ''BRANCH''), (''value'', JStr ''main'')]])]]),
           (''estimatedDuration'', JInt 600000), (''timestamp'', JInt 700000)]"

section \<open>Basic facts\<close>

lemma bind_Inl [simp]: "bind (Inl e) f = Inl e"
  by (simp add: bind_def)

lemma bind_Inr [simp]: "bind (Inr x) f = f x"
  by (simp add: bind_def)

lemma get_data_publish [simp]: "get_data (publish s d) = s"
  by (simp add: get_data_def publish_def)

lemma bind_eq_Inr: "bind m f = Inr y \<longleftrightarrow> (\<exists>x. m = Inr x \<and> f x = Inr y)"
  by (cases m) simp_all

lemma py_in_obj [simp]: "py_in k (JObj kvs) = Inr (map_of kvs k \<noteq> None)"
  by (simp add: py_in_def)

lemma py_get_obj [simp]:
  "py_get (JObj kvs) k d = Inr (case map_of kvs k of Some x \<Rightarrow> x | None \<Rightarrow> d)"
  by (simp add: py_get_def)

lemma py_getitem_obj_Some [simp]: "map_of kvs k = Some v \<Longrightarrow> py_getitem (JObj kvs) k = Inr v"
  by (simp add: py_getitem_def)

text \<open>A record that \<open>get_build_info\<close> returns is made of what its parts return.\<close>

lemma get_build_info_parts:
  assumes "get_build_info now_p now_r b = Inr info"
  shows "resolve_job_name b = Inr (job_name info)"
    and "py_get b ''number'' (JStr ''N/A'') = Inr (build_number info)"
    and "extract_branch b = Inr (branch info)"
    and "resolve_build_display b (job_name info) (build_number info) (branch info) =
           Inr (build_display info)"
    and "progress_pct now_p b = Inr (progress info)"
    and "remaining_time now_r b = Inr (remaining info)"
  using assms
  by (auto simp: get_build_info_def bind_eq_Inr split: json.splits)

subsection \<open>Decimal digits\<close>

lemma digit_chars: "map digit_char [0, 1, 2, 3, 4, 5, 6, 7, 8, 9] = ''0123456789''"
  by code_simp

lemma digit_char_in: "k < 10 \<Longrightarrow> digit_char k \<in> set ''0123456789''"
proof -
  assume "k < 10"
  then have "k \<in> set [0, 1, 2, 3, 4, 5, 6, 7, 8, 9]"
    by auto
  then have "digit_char k \<in> set (map digit_char [0, 1, 2, 3, 4, 5, 6, 7, 8, 9])"
    unfolding set_map by (rule imageI)
  then show ?thesis
    by (simp only: digit_chars)
qed

lemma str_nat_hd: "str_nat n \<noteq> [] \<and> hd (str_nat n) \<in> set ''0123456789''"
proof (induction n rule: str_nat.induct)
  case (1 n)
  show ?case
  proof (cases "n < 10")
    case True
    then show ?thesis
      using digit_char_in [of n] by (subst (1 2) str_nat.simps) simp
  next
    case False
    then show ?thesis
      using 1 by (subst (1 2) str_nat.simps) simp
  qed
qed

lemma str_int_hd: "str_int i \<noteq> [] \<and> hd (str_int i) \<in> set ''-0123456789''"
  using str_nat_hd [of "nat i"] str_nat_hd [of "nat (- i)"]
  by (auto simp: str_int_def)

subsection \<open>The precondition of progress and remaining time\<close>

lemma has_estimate_absent:
  "map_of kvs ''estimatedDuration'' = None \<Longrightarrow> has_estimate (JObj kvs) = Inr False"
  by (simp add: has_estimate_def)

lemma has_estimate_num:
  "map_of kvs ''estimatedDuration'' = Some d \<Longrightarrow> py_num d = Some est \<Longrightarrow>
   has_estimate (JObj kvs) = Inr (0 < est \<and> map_of kvs ''timestamp'' \<noteq> None)"
  by (simp add: has_estimate_def py_gt0_def)

lemma has_estimate_no_timestamp:
  "map_of kvs ''timestamp'' = None \<Longrightarrow> has_estimate (JObj kvs) = Inr c \<Longrightarrow> \<not> c"
  by (auto simp: has_estimate_def bind_eq_Inr split: option.splits if_splits)

lemma estimated_ms_num:
  "map_of kvs ''estimatedDuration'' = Some d \<Longrightarrow> py_num d = Some est \<Longrightarrow>
   estimated_ms (JObj kvs) = Inr est"
  by (simp add: estimated_ms_def)

subsection \<open>Signs of the floating-point operations\<close>

lemma round_half_even_nonneg: "0 \<le> n \<Longrightarrow> 0 < d \<Longrightarrow> 0 \<le> round_half_even n d"
  by (simp add: round_half_even_def Let_def pos_imp_zdiv_nonneg_iff)

lemma round64_nonneg:
  assumes "0 \<le> n" "0 < d" "round64 n d = Some x"
  shows "0 \<le> fst x"
proof (cases "n = 0")
  case True
  then show ?thesis
    using assms by (auto simp: round64_def)
next
  case False
  then have "0 < n"
    using assms by simp
  then show ?thesis
    using assms round_half_even_nonneg [of "\<bar>n\<bar> * 2 ^ nat (- (max (floor_log2 \<bar>n\<bar> d) (- 1022) - 52))"
        "d * 2 ^ nat (max (floor_log2 \<bar>n\<bar> d) (- 1022) - 52)"]
    by (auto simp: round64_def Let_def split: if_splits)
qed

lemma float_mul_int_nonneg:
  assumes "0 \<le> fst x" "0 \<le> k" "float_mul_int x k = Some y"
  shows "0 \<le> fst y"
  using assms round64_nonneg [of "fst x * k * 2 ^ nat (snd x)" "2 ^ nat (- snd x)" y]
  by (simp add: float_mul_int_def)

lemma float_trunc_nonneg: "0 \<le> fst x \<Longrightarrow> 0 \<le> float_trunc x"
  by (simp add: float_trunc_def pos_imp_zdiv_nonneg_iff sgn_if)

lemma py_iter_list [simp]: "py_iter (JList xs) = Inr xs"
  by (simp add: py_iter_def)

lemma bindE:
  assumes "bind m f = Inr y"
  obtains x where "m = Inr x" "f x = Inr y"
  using assms by (auto simp: bind_eq_Inr)

section \<open>The floating-point division stays finite\<close>

text \<open>
  The quotient of two integers is rounded at 53 bits. When it is below \<open>2 ^ K\<close> in
  magnitude, for a \<open>K\<close> of at most 1023, the rounded value is finite.
\<close>

lemma powi_nat: "0 \<le> s \<Longrightarrow> (2::real) powi s = 2 ^ nat s"
  by (simp add: power_int_def)

lemma powi_neg: "s \<le> 0 \<Longrightarrow> (2::real) powi s = 1 / 2 ^ nat (- s)"
  by (simp add: power_int_def power_inverse field_simps)

lemma pow_split_le:
  "a * 2 ^ nat (- s) \<le> b * 2 ^ nat s \<longleftrightarrow> real_of_int a \<le> real_of_int b * 2 powi s"
proof (cases "0 \<le> s")
  case True
  then have "a * 2 ^ nat (- s) \<le> b * 2 ^ nat s \<longleftrightarrow> a \<le> b * 2 ^ nat s"
    by simp
  also have "\<dots> \<longleftrightarrow> real_of_int a \<le> real_of_int (b * 2 ^ nat s)"
    by (simp only: of_int_le_iff)
  finally show ?thesis
    using True by (simp add: powi_nat)
next
  case False
  then have "a * 2 ^ nat (- s) \<le> b * 2 ^ nat s \<longleftrightarrow> a * 2 ^ nat (- s) \<le> b"
    by simp
  also have "\<dots> \<longleftrightarrow> real_of_int (a * 2 ^ nat (- s)) \<le> real_of_int b"
    by (simp only: of_int_le_iff)
  finally show ?thesis
    using False by (simp add: powi_neg field_simps)
qed

lemma bitlen_real:
  assumes "0 < x"
  shows "2 powi (bitlen x - 1) \<le> real_of_int x" "real_of_int x < 2 powi (bitlen x)"
proof -
  have b: "2 ^ nat (bitlen x - 1) \<le> x" "x < 2 ^ nat (bitlen x)"
    using bitlen_bounds [OF assms] by simp_all
  have pos: "1 \<le> bitlen x"
    using assms by (auto simp: bitlen_alt_def)
  have "real_of_int (2 ^ nat (bitlen x - 1)) \<le> real_of_int x"
    using b(1) by (simp only: of_int_le_iff)
  then show "2 powi (bitlen x - 1) \<le> real_of_int x"
    using pos by (simp add: powi_nat)
  have "real_of_int x < real_of_int (2 ^ nat (bitlen x))"
    using b(2) by (simp only: of_int_less_iff)
  then show "real_of_int x < 2 powi (bitlen x)"
    using pos by (simp add: powi_nat)
qed

lemma floor_log2_bounds:
  assumes "0 < n" "0 < d"
  shows "real_of_int d * 2 powi (floor_log2 n d) \<le> real_of_int n"
    and "real_of_int n < real_of_int d * 2 powi (floor_log2 n d + 1)"
proof -
  define k where "k = bitlen n - bitlen d"
  have two: "(2::real) \<noteq> 0" by simp
  have up: "real_of_int n < real_of_int d * 2 powi (k + 1)"
  proof -
    have "real_of_int n < 2 powi (bitlen n)"
      using assms(1) by (rule bitlen_real)
    also have "\<dots> = 2 powi (bitlen d - 1) * 2 powi (k + 1)"
      by (simp add: k_def flip: power_int_add)
    also have "\<dots> \<le> real_of_int d * 2 powi (k + 1)"
      using bitlen_real(1) [OF assms(2)] by (simp add: mult_right_mono)
    finally show ?thesis .
  qed
  have low: "real_of_int d * 2 powi (k - 1) \<le> real_of_int n"
  proof -
    have "real_of_int d * 2 powi (k - 1) \<le> 2 powi (bitlen d) * 2 powi (k - 1)"
      using bitlen_real(2) [OF assms(2)] by (simp add: mult_right_mono)
    also have "\<dots> = 2 powi (bitlen n - 1)"
      by (simp add: k_def flip: power_int_add)
    also have "\<dots> \<le> real_of_int n"
      using assms(1) by (rule bitlen_real)
    finally show ?thesis .
  qed
  have test: "d * 2 ^ nat k \<le> n * 2 ^ nat (- k) \<longleftrightarrow> real_of_int d * 2 powi k \<le> real_of_int n"
    using pow_split_le [of d "- k" n] by (simp add: power_int_minus field_simps)
  show "real_of_int d * 2 powi (floor_log2 n d) \<le> real_of_int n"
    using low test by (simp add: floor_log2_def k_def [symmetric] Let_def)
  show "real_of_int n < real_of_int d * 2 powi (floor_log2 n d + 1)"
    using up test by (simp add: floor_log2_def k_def [symmetric] Let_def not_le)
qed

lemma round_half_even_near:
  assumes "0 < D"
  shows "\<bar>real_of_int (round_half_even N D) - real_of_int N / real_of_int D\<bar> \<le> 1 / 2"
proof -
  define q r where "q = N div D" and "r = N mod D"
  have N: "N = q * D + r"
    by (simp add: q_def r_def)
  have r: "0 \<le> r" "r < D"
    using assms by (simp_all add: r_def)
  have frac: "real_of_int N / real_of_int D = real_of_int q + real_of_int r / real_of_int D"
    using assms by (simp add: N field_simps)
  have D: "0 < real_of_int D"
    using assms by simp
  consider "2 * r < D" | "D < 2 * r" | "2 * r = D"
    by linarith
  then show ?thesis
  proof cases
    case 1
    then have "round_half_even N D = q"
      by (simp add: round_half_even_def q_def r_def Let_def)
    moreover have "real_of_int r / real_of_int D \<le> 1 / 2"
      using 1 D by (auto simp: field_simps)
    moreover have "0 \<le> real_of_int r / real_of_int D"
      using r D by simp
    ultimately show ?thesis
      by (simp add: frac)
  next
    case 2
    then have "round_half_even N D = q + 1"
      by (simp add: round_half_even_def q_def r_def Let_def)
    moreover have "1 / 2 \<le> real_of_int r / real_of_int D"
      using 2 D by (auto simp: field_simps)
    moreover have "real_of_int r / real_of_int D \<le> 1"
      using r D by simp
    ultimately show ?thesis
      by (simp add: frac) 
  next
    case 3
    then have m: "round_half_even N D = q \<or> round_half_even N D = q + 1"
      by (simp add: round_half_even_def q_def r_def Let_def)
    have "real_of_int (2 * r) = real_of_int D"
      using 3 by (simp only:)
    then have h: "real_of_int r / real_of_int D = 1 / 2"
      using D by (simp add: field_simps)
    show ?thesis
      using m unfolding frac h by auto
  qed
qed

lemma near_le:
  assumes "\<bar>real_of_int M - y\<bar> \<le> 1 / 2" "y \<le> real_of_int J"
  shows "M \<le> J"
proof (rule ccontr)
  assume "\<not> M \<le> J"
  then have "J + 1 \<le> M" by simp
  then have "real_of_int (J + 1) \<le> real_of_int M"
    by (simp only: of_int_le_iff)
  then show False
    using assms by simp
qed

lemma near_ge:
  assumes "\<bar>real_of_int M - y\<bar> \<le> 1 / 2" "real_of_int J \<le> y"
  shows "J \<le> M"
proof (rule ccontr)
  assume "\<not> J \<le> M"
  then have "M + 1 \<le> J" by simp
  then have "real_of_int (M + 1) \<le> real_of_int J"
    by (simp only: of_int_le_iff)
  then show False
    using assms by simp
qed


lemma scaled_quotient:
  assumes "0 < d"
  shows "real_of_int (a * 2 ^ nat (- sh)) / real_of_int (d * 2 ^ nat sh) =
         real_of_int a / real_of_int d * 2 powi (- sh)"
proof (cases "0 \<le> sh")
  case True
  then show ?thesis
    using assms by (simp add: powi_neg)
next
  case False
  then show ?thesis
    using assms by (simp add: powi_nat)
qed

lemma round64_finite:
  fixes K :: nat
  assumes "0 < d" "\<bar>n\<bar> < d * 2 ^ K" "K \<le> 1023"
  shows "\<exists>m sh. round64 n d = Some (m, sh) \<and> \<bar>m\<bar> \<le> 2 ^ 53 \<and> sh \<le> max 0 (int K - 53)"
proof (cases "n = 0")
  case True
  then show ?thesis
    by (simp add: round64_def)
next
  case False
  define a where "a = \<bar>n\<bar>"
  define e where "e = floor_log2 a d"
  define sh where "sh = max e (- 1022) - 52"
  define M where "M = round_half_even (a * 2 ^ nat (- sh)) (d * 2 ^ nat sh)"
  define y where "y = real_of_int a / real_of_int d * 2 powi (- sh)"
  have a: "0 < a"
    using False by (simp add: a_def)
  have d: "0 < real_of_int d"
    using assms(1) by simp
  have near: "\<bar>real_of_int M - y\<bar> \<le> 1 / 2"
    using round_half_even_near [of "d * 2 ^ nat sh" "a * 2 ^ nat (- sh)"] assms(1)
    by (simp only: M_def y_def scaled_quotient [OF assms(1)]) simp
  have "real_of_int a < real_of_int d * 2 powi (e + 1)"
    unfolding e_def using a assms(1) by (rule floor_log2_bounds)
  then have "real_of_int a / real_of_int d < 2 powi (e + 1)"
    using d by (simp add: field_simps)
  moreover have "(0::real) < 2 powi (- sh)"
    by (simp add: zero_less_power_int)
  ultimately have "y < 2 powi (e + 1) * 2 powi (- sh)"
    unfolding y_def by (rule mult_strict_right_mono)
  also have "\<dots> = 2 powi (e + 1 - sh)"
    by (simp flip: power_int_add)
  also have "\<dots> \<le> 2 powi 53"
    by (rule power_int_increasing) (simp_all add: sh_def)
  finally have "y \<le> real_of_int (2 ^ 53)"
    by simp
  then have M53: "M \<le> 2 ^ 53"
    using near by (rule near_le [rotated])
  have M0: "0 \<le> M"
    unfolding M_def using a assms(1) by (intro round_half_even_nonneg) simp_all
  have "real_of_int a < real_of_int (d * 2 ^ K)"
    using assms(2) unfolding a_def by (simp only: of_int_less_iff)
  then have aK: "real_of_int a < real_of_int d * 2 powi (int K)"
    by simp
  have "real_of_int d * 2 powi e \<le> real_of_int a"
    unfolding e_def using a assms(1) by (rule floor_log2_bounds)
  then have "real_of_int d * 2 powi e < real_of_int d * 2 powi (int K)"
    using aK by simp
  then have "(2::real) powi e < 2 powi (int K)"
    using d by simp
  then have eK: "e < int K"
    using power_int_increasing [of "int K" e "2::real"] by (cases "e < int K") auto
  then have shK: "sh \<le> max 0 (int K - 53)"
    by (simp add: sh_def)
  have "nat sh \<le> K - 53"
    using shK by simp
  then have "53 + nat sh \<le> 1023"
    using assms(3) by simp
  have "M * 2 ^ nat sh \<le> 2 ^ 53 * 2 ^ nat sh"
    using M53 by (simp add: mult_right_mono)
  also have "\<dots> = (2::int) ^ (53 + nat sh)"
    by (simp add: power_add)
  also have "\<dots> \<le> 2 ^ 1023"
    using \<open>53 + nat sh \<le> 1023\<close> by (intro power_increasing) simp_all
  also have "\<dots> < (2::int) ^ 1024"
    by (intro power_strict_increasing) simp_all
  finally have no: "\<not> 2 ^ 1024 \<le> M * 2 ^ nat sh"
    by simp
  have "round64 n d = (if 2 ^ 1024 \<le> M * 2 ^ nat sh then None else Some (sgn n * M, sh))"
    by (simp only: round64_def Let_def M_def sh_def e_def a_def False if_False)
  then have "round64 n d = Some (sgn n * M, sh)"
    using no by (simp only: if_False)
  moreover have "\<bar>sgn n * M\<bar> \<le> 2 ^ 53"
    using M0 M53 False by (simp add: abs_mult)
  ultimately show ?thesis
    using shK by blast
qed

lemma int_truediv_finite:
  fixes K :: nat
  assumes "0 < d" "\<bar>n\<bar> < d * 2 ^ K" "K \<le> 1023"
  shows "\<exists>x. int_truediv n d = Inr x \<and> \<bar>fst x\<bar> \<le> 2 ^ 53 \<and> snd x \<le> max 0 (int K - 53)"
  using round64_finite [OF assms] by (auto simp: int_truediv_def)

lemma float_mul_int_finite:
  fixes K :: nat
  assumes "\<bar>fst x\<bar> \<le> 2 ^ 53" "snd x \<le> max 0 (int K - 53)" "K \<le> 900"
  shows "\<exists>y. float_mul_int x 100 = Some y"
proof -
  have "nat (snd x) \<le> K"
    using assms(2) by simp
  have "\<bar>fst x * 100 * 2 ^ nat (snd x)\<bar> = \<bar>fst x\<bar> * 100 * 2 ^ nat (snd x)"
    by (simp add: abs_mult)
  also have "\<dots> \<le> 2 ^ 53 * 100 * 2 ^ nat (snd x)"
    using assms(1) by (simp add: mult_right_mono)
  also have "\<dots> < 2 ^ 53 * 2 ^ 7 * 2 ^ nat (snd x)"
    by simp
  also have "\<dots> = (2::int) ^ (60 + nat (snd x))"
    by (simp add: power_add)
  also have "\<dots> \<le> 2 ^ (K + 60)"
    using \<open>nat (snd x) \<le> K\<close> by (intro power_increasing) simp_all
  also have "\<dots> \<le> 2 ^ nat (- snd x) * 2 ^ (K + 60)"
    by (simp add: mult_le_cancel_right1)
  finally have "\<bar>fst x * 100 * 2 ^ nat (snd x)\<bar> < 2 ^ nat (- snd x) * 2 ^ (K + 60)" .
  moreover have "(0::int) < 2 ^ nat (- snd x)"
    by simp
  moreover have "K + 60 \<le> 1023"
    using assms(3) by simp
  ultimately obtain m sh where
    "round64 (fst x * 100 * 2 ^ nat (snd x)) (2 ^ nat (- snd x)) = Some (m, sh)"
    using round64_finite [of "2 ^ nat (- snd x)" "fst x * 100 * 2 ^ nat (snd x)" "K + 60"]
    by blast
  then show ?thesis
    by (simp add: float_mul_int_def)
qed

section \<open>The job name parsed from the URL\<close>

text \<open>
  Claim C5. Without an explicit job name, the name comes from the URL. The claim says
  that it is the segment after the final \<^verbatim>\<open>job\<close> segment; the loop returns at the first
  \<^verbatim>\<open>job\<close> segment that has a successor, so the job \<^verbatim>\<open>myjob\<close> in the folder
  \<^verbatim>\<open>folder\<close> is given the name of the folder.
\<close>

theorem job_name_first_job_segment:
  "get_build_info 0 0 (JObj [(''url'', JStr ''http://jenkins/job/folder/job/myjob/42/'')]) =
     Inr \<lparr> id' = JStr ''unknown'', job_name = JStr ''folder'', build_number = JStr ''N/A'',
           build_display = ''#N/A'', estimated_duration = ''0.0m'', progress = 0,
           remaining = ''Unknown'', url = JStr ''http://jenkins/job/folder/job/myjob/42/'',
           timestamp = JInt 0, branch = JNull \<rparr>"
  by code_simp

section \<open>Publication of the snapshot\<close>

lemma heap_publish: "heap (publish s d) = heap d @ [s]"
  by (simp add: publish_def)

lemma pointer_publish: "dashboard_data (publish s d) = length (heap d)"
  by (simp add: publish_def)

lemma heap_set_error:
  "heap (set_error msg d) =
     (heap d)[dashboard_data d := (heap d ! dashboard_data d)\<lparr> error := Some msg \<rparr>]"
  by (simp add: set_error_def)

lemma heap_set_timestamp:
  "heap (set_timestamp t d) =
     (heap d)[dashboard_data d := (heap d ! dashboard_data d)\<lparr> snap_timestamp := t \<rparr>]"
  by (simp add: set_timestamp_def)

lemma nth_update_same_field:
  "g y = g (xs ! i) \<Longrightarrow> g (xs[i := y] ! a) = g (xs ! a)"
  by (cases "i < length xs") (auto simp: nth_list_update list_update_beyond)

lemma lists_kept_refl: "lists_kept d d"
  by (simp add: lists_kept_def)

lemma lists_kept_trans: "lists_kept d d' \<Longrightarrow> lists_kept d' d'' \<Longrightarrow> lists_kept d d''"
  by (auto simp: lists_kept_def)

lemma lists_kept_publish: "lists_kept d (publish s d)"
  by (simp add: lists_kept_def heap_publish nth_append)

lemma lists_kept_set_error: "lists_kept d (set_error msg d)"
  by (simp add: lists_kept_def heap_set_error nth_update_same_field)

lemma lists_kept_set_timestamp: "lists_kept d (set_timestamp t d)"
  by (simp add: lists_kept_def heap_set_timestamp nth_update_same_field)

lemma lists_kept_refresh_data: "lists_kept d (snd (refresh_data en f flt d))"
proof (cases flt)
  case NoFault
  then show ?thesis
    by (simp add: refresh_data_def lists_kept_publish)
next
  case (Raised published e in_handler)
  define d1 where "d1 = (if published then publish (new_snapshot en f) d else d)"
  have 1: "lists_kept d d1"
    by (simp add: d1_def lists_kept_publish lists_kept_refl)
  have "lists_kept d1 (set_timestamp (handler_now_str en) (set_error (exn_str e) d1))"
    using lists_kept_set_error lists_kept_set_timestamp lists_kept_trans by blast
  then show ?thesis
    using 1 Raised
    by (cases in_handler) (auto simp: refresh_data_def d1_def [symmetric] intro: lists_kept_trans)
qed

lemma lists_kept_refresh_cycle: "lists_kept d (refresh_cycle c d)"
proof -
  obtain r d' where r: "refresh_data (fst c) (fst (snd c)) (snd (snd c)) d = (r, d')"
    by (cases "refresh_data (fst c) (fst (snd c)) (snd (snd c)) d")
  then have "lists_kept d d'"
    using lists_kept_refresh_data [of d "fst c" "fst (snd c)" "snd (snd c)"] by simp
  then show ?thesis
    using r lists_kept_set_error [of d']
    by (cases r) (auto simp: refresh_cycle_def intro: lists_kept_trans)
qed

lemma lists_kept_thread: "lists_kept d (refresh_data_thread cs d)"
proof (induction cs arbitrary: d)
  case Nil
  then show ?case by (simp add: lists_kept_refl)
next
  case (Cons c cs)
  then show ?case
    using lists_kept_refresh_cycle lists_kept_trans by fastforce
qed

lemma thread_no_fault_prefix:
  "\<forall>c \<in> set cs. snd (snd c) = NoFault \<Longrightarrow> prefix (heap d) (heap (refresh_data_thread cs d))"
proof (induction cs arbitrary: d)
  case Nil
  then show ?case by simp
next
  case (Cons c cs)
  have "heap (refresh_cycle c d) = heap d @ [new_snapshot (fst c) (fst (snd c))]"
    using Cons.prems by (simp add: refresh_cycle_def refresh_data_def heap_publish)
  moreover have "prefix (heap (refresh_cycle c d)) (heap (refresh_data_thread cs (refresh_cycle c d)))"
    using Cons by simp
  ultimately show ?case
    by (metis prefix_order.order_trans prefixI refresh_data_thread.simps(2))
qed

text \<open>
  Claim C2, as stated, fails on the error paths. When an exception reaches the outer
  handler of \<^verbatim>\<open>refresh_data\<close> before the assignment, no new dictionary is installed:
  the heap still holds one object, the one published before, and its \<^verbatim>\<open>error\<close> and
  \<^verbatim>\<open>timestamp\<close> entries have been assigned in place.
\<close>

theorem outer_handler_mutates_counterexample:
  "heap first_dashboard =
     [\<lparr> running_builds = [], queued_builds = [], latest_builds = [],
        snap_timestamp = ''2025-01-01 00:00:00'', error = None \<rparr>] \<and>
   heap (snd (refresh_data (frozen_env 0) queue_down
                (Raised False (Exn OtherError ''boom'') None) first_dashboard)) =
     [\<lparr> running_builds = [], queued_builds = [], latest_builds = [],
        snap_timestamp = ''2025-01-01 00:00:02'', error = Some ''boom'' \<rparr>]"
  by (simp add: first_dashboard_def init_dashboard_def refresh_data_def set_error_def
      set_timestamp_def frozen_env_def)

text \<open>
  Claim C2, amended. A refresh in which nothing raises outside the three guarded queries,
  whatever these queries do, allocates a new snapshot, publishes it and leaves every
  earlier snapshot object as it was; so does any number of such cycles of the periodic
  loop. On every path, the error paths included, every earlier snapshot object keeps its
  three lists: the handlers assign the \<^verbatim>\<open>error\<close> and \<^verbatim>\<open>timestamp\<close> entries only.
\<close>

theorem refresh_replaces_snapshot:
  "heap (snd (refresh_data en f NoFault d)) = heap d @ [new_snapshot en f] \<and>
   dashboard_data (snd (refresh_data en f NoFault d)) = length (heap d) \<and>
   ((\<forall>c \<in> set cs. snd (snd c) = NoFault) \<longrightarrow>
      prefix (heap d) (heap (refresh_data_thread cs d))) \<and>
   lists_kept d (snd (refresh_data en f flt d)) \<and>
   lists_kept d (refresh_data_thread cs d)"
  using thread_no_fault_prefix [of cs d] lists_kept_refresh_data lists_kept_thread
  by (simp add: refresh_data_def heap_publish pointer_publish)

theorem refresh_replaces_snapshot_witness:
  "length (heap (snd (refresh_data (frozen_env 0) queue_down NoFault first_dashboard))) = 2 \<and>
   dashboard_data (snd (refresh_data (frozen_env 0) queue_down NoFault first_dashboard)) = 1 \<and>
   prefix (heap first_dashboard)
     (heap (refresh_data_thread [(frozen_env 0, queue_down, NoFault),
                                 (frozen_env 1, queue_down, NoFault)] first_dashboard)) \<and>
   lists_kept first_dashboard
     (snd (refresh_data (frozen_env 0) queue_down (Raised False (Exn OtherError ''boom'') None)
        first_dashboard))"
  using refresh_replaces_snapshot [of "frozen_env 0" queue_down first_dashboard
      "[(frozen_env 0, queue_down, NoFault), (frozen_env 1, queue_down, NoFault)]"
      "Raised False (Exn OtherError ''boom'') None"]
  by (simp add: first_dashboard_def init_dashboard_def)

section \<open>A failure of one query\<close>



section \<open>The running builds, one for each url\<close>

lemma py_setitem_url:
  "py_setitem v k x = Inr w \<Longrightarrow> k \<noteq> ''url'' \<Longrightarrow> py_get w ''url'' dflt = py_get v ''url'' dflt"
  by (auto simp: py_setitem_def py_get_def update_conv' split: json.splits)

lemma add_job_names_url:
  assumes "add_job_names b = Inr b'"
  shows "py_get b' ''url'' dflt = py_get b ''url'' dflt"
proof -
  obtain c where c: "in_job b ''name'' = Inr c"
    and r: "(if c
       then bind (py_getitem b ''job'') (\<lambda>job.
            bind (py_getitem job ''name'') (\<lambda>name.
            bind (py_setitem b ''jobName'' name) (\<lambda>b1.
            bind (py_in ''fullName'' job) (\<lambda>has_full.
            bind (if has_full
                  then bind (py_getitem job ''fullName'') (py_setitem b1 ''jobFullName'')
                  else Inr b1) (\<lambda>b2.
            bind (py_in ''displayName'' job) (\<lambda>has_display.
              if has_display
              then bind (py_getitem job ''displayName'') (py_setitem b2 ''jobDisplayName'')
              else Inr b2))))))
       else Inr b) = Inr b'"
    using assms unfolding add_job_names_def by (rule bindE)
  show ?thesis
  proof (cases c)
    case False
    then show ?thesis using r by simp
  next
    case True
    then obtain job name b1 has_full b2 has_display where
      b1: "py_setitem b ''jobName'' name = Inr b1"
      and b2: "(if has_full
                  then bind (py_getitem job ''fullName'') (py_setitem b1 ''jobFullName'')
                  else Inr b1) = Inr b2"
      and b': "(if has_display
              then bind (py_getitem job ''displayName'') (py_setitem b2 ''jobDisplayName'')
              else Inr b2) = Inr b'"
      using r by (auto elim!: bindE)
    have 1: "py_get b1 ''url'' dflt = py_get b ''url'' dflt"
      using b1 by (rule py_setitem_url) simp
    have 2: "py_get b2 ''url'' dflt = py_get b1 ''url'' dflt"
      using b2 by (cases has_full) (auto elim!: bindE dest: py_setitem_url)
    have 3: "py_get b' ''url'' dflt = py_get b2 ''url'' dflt"
      using b' by (cases has_display) (auto elim!: bindE dest: py_setitem_url)
    show ?thesis
      using 1 2 3 by simp
  qed
qed

lemma add_display_name_url:
  assumes "add_display_name b = Inr b'"
  shows "py_get b' ''url'' dflt = py_get b ''url'' dflt"
proof -
  obtain c where r: "(if c then bind (py_getitem b ''fullDisplayName'') (py_setitem b ''displayName'')
       else bind (py_in ''displayName'' b) (\<lambda>has.
         if \<not> has
         then bind (py_get b ''number'' (JStr ''N/A'')) (\<lambda>n.
                py_setitem b ''displayName'' (JStr (''#'' @ py_str n)))
         else Inr b)) = Inr b'"
    using assms unfolding add_display_name_def by (rule bindE)
  show ?thesis
  proof (cases c)
    case True
    then show ?thesis
      using r by (auto elim!: bindE dest: py_setitem_url)
  next
    case False
    then obtain has where h: "(if \<not> has
         then bind (py_get b ''number'' (JStr ''N/A'')) (\<lambda>n.
                py_setitem b ''displayName'' (JStr (''#'' @ py_str n)))
         else Inr b) = Inr b'"
      using r by (auto elim!: bindE)
    then show ?thesis
      by (cases has) (auto elim!: bindE dest: py_setitem_url)
  qed
qed

lemma enhance_build_url:
  assumes "enhance_build b = Inr b'"
  shows "py_get b' ''url'' dflt = py_get b ''url'' dflt"
  using assms add_job_names_url add_display_name_url
  by (auto simp: enhance_build_def elim!: bindE)


lemma for_each_invariant:
  assumes "\<forall>x s s'. P s \<longrightarrow> body x s = Inr s' \<longrightarrow> P s'"
    and "P s" "for_each body xs s = Inr s'"
  shows "P s'"
  using assms(2,3)
proof (induction xs arbitrary: s)
  case Nil
  then show ?case by simp
next
  case (Cons x xs)
  from Cons.prems(2) obtain s1 where s1: "body x s = Inr s1" "for_each body xs s1 = Inr s'"
    by (auto elim!: bindE)
  have "P s1"
    using Cons.prems(1) s1(1) assms(1) by blast
  then show ?case
    using s1(2) by (rule Cons.IH)
qed

lemma executor_step_cases:
  assumes "executor_step executor st = Inr st'"
  shows "st' = st \<or>
         (\<exists>build u k b. py_getitem executor ''currentExecutable'' = Inr build \<and>
            py_get build ''url'' JNull = Inr u \<and> truthy u \<and> hash_key u = Inr k \<and>
            k \<notin> set (snd st) \<and> enhance_build build = Inr b \<and>
            st' = (fst st @ [b], k # snd st))"
proof -
  obtain current where r: "(if truthy current
       then bind (py_getitem executor ''currentExecutable'') (\<lambda>build.
            bind (py_get build ''url'' JNull) (\<lambda>build_url.
            bind (if truthy build_url
                  then bind (hash_key build_url) (\<lambda>k. Inr (k \<notin> set (snd st)))
                  else Inr False) (\<lambda>unseen.
              if unseen
              then bind (enhance_build build) (\<lambda>b.
                   bind (hash_key build_url) (\<lambda>k. Inr (fst st @ [b], k # snd st)))
              else Inr st)))
       else Inr st) = Inr st'"
    using assms unfolding executor_step_def by (rule bindE)
  show ?thesis
  proof (cases "truthy current")
    case False
    then show ?thesis using r by simp
  next
    case True
    then obtain build u unseen where b: "py_getitem executor ''currentExecutable'' = Inr build"
      "py_get build ''url'' JNull = Inr u"
      and un: "(if truthy u then bind (hash_key u) (\<lambda>k. Inr (k \<notin> set (snd st)))
                else Inr False) = Inr unseen"
      and rest: "(if unseen
              then bind (enhance_build build) (\<lambda>b.
                   bind (hash_key u) (\<lambda>k. Inr (fst st @ [b], k # snd st)))
              else Inr st) = Inr st'"
      using r by (auto elim!: bindE)
    show ?thesis
    proof (cases unseen)
      case False
      then show ?thesis using rest by simp
    next
      case True
      then obtain b' k where e: "enhance_build build = Inr b'" "hash_key u = Inr k"
        "st' = (fst st @ [b'], k # snd st)"
        using rest by (auto elim!: bindE)
      have "truthy u \<and> k \<notin> set (snd st)"
        using un True e(2) by (cases "truthy u") (auto elim!: bindE)
      then show ?thesis
        using b e by blast
    qed
  qed
qed

lemma executor_step_inv:
  assumes "dedup_inv st" "executor_step executor st = Inr st'"
  shows "dedup_inv st'"
proof -
  consider "st' = st"
    | build u k b where "py_get build ''url'' JNull = Inr u" "truthy u" "hash_key u = Inr k"
        "k \<notin> set (snd st)" "enhance_build build = Inr b" "st' = (fst st @ [b], k # snd st)"
    using executor_step_cases [OF assms(2)] by blast
  then show ?thesis
  proof cases
    case 1
    then show ?thesis using assms(1) by simp
  next
    case 2
    have "py_get b ''url'' JNull = Inr u"
      using enhance_build_url [OF 2(5)] 2(1) by simp
    then have "build_url_key b = Some k \<and> has_url b"
      using 2(2,3) by (simp add: build_url_key_def has_url_def)
    then show ?thesis
      using assms(1) 2(4,6) by (simp add: dedup_inv_def)
  qed
qed

lemma executor_step_prefix:
  "executor_step executor st = Inr st' \<Longrightarrow> prefix (fst st) (fst st')"
  using executor_step_cases [of executor st st'] by auto

lemma executors_loop_inv:
  assumes "dedup_inv st" "executors_loop key node st = Inr st'"
  shows "dedup_inv st'"
proof -
  obtain has where r: "(if has then bind (py_getitem node key) (\<lambda>es.
                   bind (py_iter es) (\<lambda>executors. for_each executor_step executors st))
       else Inr st) = Inr st'"
    using assms(2) unfolding executors_loop_def by (rule bindE)
  show ?thesis
  proof (cases has)
    case False
    then show ?thesis using r assms(1) by simp
  next
    case True
    then obtain executors where "for_each executor_step executors st = Inr st'"
      using r by (auto elim!: bindE)
    then show ?thesis
      using for_each_invariant [of dedup_inv executor_step st executors st']
        executor_step_inv assms(1)
      by blast
  qed
qed

lemma node_step_inv:
  assumes "dedup_inv st" "node_step node st = Inr st'"
  shows "dedup_inv st'"
proof -
  obtain s1 where "executors_loop ''executors'' node st = Inr s1"
    "executors_loop ''oneOffExecutors'' node s1 = Inr st'"
    using assms(2) unfolding node_step_def by (rule bindE)
  then show ?thesis
    using assms(1) executors_loop_inv by blast
qed

lemma nodes_inv:
  assumes "for_each node_step nodes ([], []) = Inr st"
  shows "dedup_inv st"
proof -
  have "dedup_inv ([], [])"
    by (simp add: dedup_inv_def)
  then show ?thesis
    using for_each_invariant [of dedup_inv node_step "([], [])" nodes st] node_step_inv assms
    by blast
qed

lemma dedup_inv_distinct:
  assumes "dedup_inv st"
  shows "distinct (map build_url_key (fst st)) \<and> list_all has_url (fst st)"
  using assms by (simp add: dedup_inv_def distinct_map)

lemma running_builds_from_list:
  "\<exists>bs. running_builds_from response = JList bs \<and> distinct (map build_url_key bs) \<and>
        list_all has_url bs"
proof (cases "running_builds_from response = JList []")
  case True
  then show ?thesis by simp
next
  case False
  then obtain nodes st where "for_each node_step nodes ([], []) = Inr st"
    "running_builds_from response = JList (fst st)"
    by (auto simp: running_builds_from_def bind_def split: sum.splits if_splits)
  then show ?thesis
    using dedup_inv_distinct [OF nodes_inv] by auto
qed

text \<open>
  Claim C4, as stated, fails on its last part: a build without a url is not retained.
  The guard \<^verbatim>\<open>if build_url and build_url not in seen_builds\<close> drops it, and here the
  only build of the only executor has no url.
\<close>

theorem build_without_url_dropped_counterexample:
  "running_builds_from (Inr no_url_slot) = JList []"
  by code_simp

text \<open>
  Claim C4, amended. The walk over the executors and one-off executors of all nodes
  returns a list in which every build has a url and no two builds have the same url. A
  step of the walk never removes or replaces a collected build: it leaves the state as it
  is, or it appends the build of the executor, with the names added, when the url of that
  build is truthy and not seen before. So for every url the first build met is the one
  retained, and a build without a url is never included.
\<close>

theorem running_builds_unique_url:
  "(\<exists>bs. running_builds_from response = JList bs \<and> distinct (map build_url_key bs) \<and>
        list_all has_url bs) \<and>
   (executor_step executor st = Inr st' \<longrightarrow>
      prefix (fst st) (fst st') \<and>
      (st' = st \<or>
       (\<exists>build u k b. py_getitem executor ''currentExecutable'' = Inr build \<and>
          py_get build ''url'' JNull = Inr u \<and> truthy u \<and> hash_key u = Inr k \<and>
          k \<notin> set (snd st) \<and> enhance_build build = Inr b \<and>
          st' = (fst st @ [b], k # snd st))))"
  using running_builds_from_list executor_step_cases executor_step_prefix by blast


theorem running_builds_unique_url_witness:
  "running_builds_from (Inr two_slots) =
     JList [JObj [(''url'', JStr ''u1''), (''number'', JInt 3), (''displayName'', JStr ''#3'')]] \<and>
   executor_step (JObj [(''currentExecutable'', JObj [(''url'', JStr ''u1''), (''number'', JInt 4)])])
     ([JObj [(''url'', JStr ''u1''), (''number'', JInt 3), (''displayName'', JStr ''#3'')]],
      [JStr ''u1'']) =
     Inr ([JObj [(''url'', JStr ''u1''), (''number'', JInt 3), (''displayName'', JStr ''#3'')]],
          [JStr ''u1'']) \<and>
   distinct (map build_url_key
     [JObj [(''url'', JStr ''u1''), (''number'', JInt 3), (''displayName'', JStr ''#3'')]])"
proof -
  have r: "running_builds_from (Inr two_slots) =
     JList [JObj [(''url'', JStr ''u1''), (''number'', JInt 3), (''displayName'', JStr ''#3'')]]"
    by code_simp
  have s: "executor_step
     (JObj [(''currentExecutable'', JObj [(''url'', JStr ''u1''), (''number'', JInt 4)])])
     ([JObj [(''url'', JStr ''u1''), (''number'', JInt 3), (''displayName'', JStr ''#3'')]],
      [JStr ''u1'']) =
     Inr ([JObj [(''url'', JStr ''u1''), (''number'', JInt 3), (''displayName'', JStr ''#3'')]],
          [JStr ''u1''])"
    by code_simp
  show ?thesis
    using r s running_builds_unique_url [of "Inr two_slots"
        "JObj [(''currentExecutable'', JObj [(''url'', JStr ''u1''), (''number'', JInt 4)])]"
        "([JObj [(''url'', JStr ''u1''), (''number'', JInt 3), (''displayName'', JStr ''#3'')]],
          [JStr ''u1''])"
        "([JObj [(''url'', JStr ''u1''), (''number'', JInt 3), (''displayName'', JStr ''#3'')]],
          [JStr ''u1''])"]
    by auto
qed

section \<open>The progress of a running build\<close>

lemma progress_pct_ready:
  assumes "map_of kvs ''estimatedDuration'' = Some d" "py_num d = Some est" "0 < est"
    and "map_of kvs ''timestamp'' = Some t" "py_num t = Some ts"
  shows "progress_pct now (JObj kvs) =
           bind (int_truediv (now - ts) est) (\<lambda>ratio.
           bind (py_int (float_mul_int ratio 100)) (\<lambda>pct. Inr (min 100 pct)))"
  using assms
  by (simp add: progress_pct_def has_estimate_num estimated_ms_num py_rsub_def)

lemma progress_pct_missing:
  assumes "map_of kvs ''estimatedDuration'' = None \<or> map_of kvs ''timestamp'' = None \<or>
           (\<exists>d est. map_of kvs ''estimatedDuration'' = Some d \<and> py_num d = Some est \<and> est \<le> 0)"
    and "progress_pct now (JObj kvs) = Inr p"
  shows "p = 0"
proof -
  obtain c where c: "has_estimate (JObj kvs) = Inr c"
    using assms(2) by (auto simp: progress_pct_def bind_eq_Inr)
  have "\<not> c"
    using assms(1) c
    by (auto simp: has_estimate_absent has_estimate_num dest: has_estimate_no_timestamp)
  then show ?thesis
    using assms(2) c by (simp add: progress_pct_def)
qed

lemma progress_nonneg:
  assumes "0 \<le> elapsed" "0 < est" "int_truediv elapsed est = Inr ratio"
    and "py_int (float_mul_int ratio 100) = Inr pct"
  shows "0 \<le> pct"
proof -
  have "0 \<le> fst ratio"
    using assms(1-3) round64_nonneg [of elapsed est ratio]
    by (auto simp: int_truediv_def split: option.splits)
  moreover obtain y where y: "float_mul_int ratio 100 = Some y" "pct = float_trunc y"
    using assms(4) by (auto simp: py_int_def split: option.splits)
  ultimately have "0 \<le> fst y"
    using float_mul_int_nonneg [of ratio 100 y] by simp
  then show ?thesis
    using y float_trunc_nonneg by simp
qed

text \<open>
  Claim C6, as stated, fails twice. A build whose timestamp lies 300000 ms in the future
  of the clock gets the progress -50, where the formula of the specification gives 0:
  there is no lower clamp. And after 5999 ms of 600000 the progress is 0, where rounding
  gives 1: \<^verbatim>\<open>int()\<close> truncates.
\<close>

theorem progress_not_clamped_rounded_counterexample:
  "map_sum id progress (get_build_info 1000000 1000000 (running_build 1300000)) = Inr (- 50) \<and>
   spec_progress 1000000 1300000 600000 = 0 \<and>
   map_sum id progress (get_build_info 1000000 1000000 (running_build 994001)) = Inr 0 \<and>
   spec_progress 1000000 994001 600000 = 1"
  by code_simp

text \<open>
  Claim C6, amended. For a running build with a positive estimated duration and a
  timestamp, the progress is the floating-point quotient of the elapsed time and the
  estimate, times 100, truncated towards zero and capped at 100. It is never above 100,
  and it is at least 0 when the timestamp is not in the future of the clock. When the
  estimate is absent or not positive, or the timestamp is absent, the progress is 0.
\<close>

theorem progress_truncated_and_capped:
  assumes "get_build_info now_p now_r (JObj kvs) = Inr info"
  shows "(\<forall>d t est ts.
            map_of kvs ''estimatedDuration'' = Some d \<and> py_num d = Some est \<and> 0 < est \<and>
            map_of kvs ''timestamp'' = Some t \<and> py_num t = Some ts \<longrightarrow>
            (\<exists>ratio pct. int_truediv (now_p - ts) est = Inr ratio \<and>
               py_int (float_mul_int ratio 100) = Inr pct \<and> progress info = min 100 pct) \<and>
            progress info \<le> 100 \<and> (ts \<le> now_p \<longrightarrow> 0 \<le> progress info)) \<and>
         (map_of kvs ''estimatedDuration'' = None \<or> map_of kvs ''timestamp'' = None \<or>
          (\<exists>d est. map_of kvs ''estimatedDuration'' = Some d \<and> py_num d = Some est \<and> est \<le> 0)
          \<longrightarrow> progress info = 0)"
proof -
  have p: "progress_pct now_p (JObj kvs) = Inr (progress info)"
    using assms by (rule get_build_info_parts)
  have ready: "(\<exists>ratio pct. int_truediv (now_p - ts) est = Inr ratio \<and>
                  py_int (float_mul_int ratio 100) = Inr pct \<and> progress info = min 100 pct) \<and>
               progress info \<le> 100 \<and> (ts \<le> now_p \<longrightarrow> 0 \<le> progress info)"
    if h: "map_of kvs ''estimatedDuration'' = Some d" "py_num d = Some est" "0 < est"
       "map_of kvs ''timestamp'' = Some t" "py_num t = Some ts" for d t est ts
  proof -
    obtain ratio pct where rp: "int_truediv (now_p - ts) est = Inr ratio"
      "py_int (float_mul_int ratio 100) = Inr pct" "progress info = min 100 pct"
      using p by (auto simp: progress_pct_ready [OF h] bind_eq_Inr)
    have "0 \<le> pct" if "ts \<le> now_p"
      using that h(3) rp(1,2) progress_nonneg [of "now_p - ts" est ratio pct] by simp
    then show ?thesis
      using rp by auto
  qed
  have missing: "progress info = 0"
    if "map_of kvs ''estimatedDuration'' = None \<or> map_of kvs ''timestamp'' = None \<or>
        (\<exists>d est. map_of kvs ''estimatedDuration'' = Some d \<and> py_num d = Some est \<and> est \<le> 0)"
    using that p by (rule progress_pct_missing)
  show ?thesis
    using ready missing by blast
qed

theorem progress_truncated_and_capped_witness:
  "map_sum id progress (get_build_info 1000000 1000000 (running_build 700000)) = Inr 50 \<and>
   map_sum id progress (get_build_info 1000000 1000000 (running_build 100000)) = Inr 100 \<and>
   map_sum id progress (get_build_info 1000000 1000000 (JObj [(''number'', JInt 42)])) = Inr 0"
proof -
  have "\<not> isl (get_build_info 1000000 1000000 (running_build 700000))"
    by code_simp
  then obtain i1 where g1: "get_build_info 1000000 1000000 (running_build 700000) = Inr i1"
    by (cases "get_build_info 1000000 1000000 (running_build 700000)") auto
  have "\<not> isl (get_build_info 1000000 1000000 (running_build 100000))"
    by code_simp
  then obtain i2 where g2: "get_build_info 1000000 1000000 (running_build 100000) = Inr i2"
    by (cases "get_build_info 1000000 1000000 (running_build 100000)") auto
  have "\<not> isl (get_build_info 1000000 1000000 (JObj [(''number'', JInt 42)]))"
    by code_simp
  then obtain i3 where g3: "get_build_info 1000000 1000000 (JObj [(''number'', JInt 42)]) = Inr i3"
    by (cases "get_build_info 1000000 1000000 (JObj [(''number'', JInt 42)])") auto
  have r1: "int_truediv 300000 600000 = Inr (4503599627370496, - 53)"
    by code_simp
  have r2: "int_truediv 900000 600000 = Inr (6755399441055744, - 52)"
    by code_simp
  have p1: "py_int (float_mul_int (4503599627370496, - 53) 100) = Inr 50"
    by code_simp
  have p2: "py_int (float_mul_int (6755399441055744, - 52) 100) = Inr 150"
    by code_simp
  have "progress i1 = 50"
    using progress_truncated_and_capped [OF g1 [unfolded running_build_def], THEN conjunct1,
        rule_format, of "JInt 600000" 600000 "JInt 700000" 700000] r1 p1
    by (auto simp: py_num_def)
  moreover have "progress i2 = 100"
    using progress_truncated_and_capped [OF g2 [unfolded running_build_def], THEN conjunct1,
        rule_format, of "JInt 600000" 600000 "JInt 100000" 100000] r2 p2
    by (auto simp: py_num_def)
  moreover have "progress i3 = 0"
    using progress_truncated_and_capped [OF g3, THEN conjunct2] by simp
  ultimately show ?thesis
    using g1 g2 g3 by simp
qed

section \<open>The remaining time of a running build\<close>

lemma minutes_seconds_not_overdue: "minutes_seconds tr \<noteq> Inr ''Overdue''"
proof
  assume "minutes_seconds tr = Inr ''Overdue''"
  then obtain m s where "str_int m @ ''m '' @ str_int s @ ''s'' = ''Overdue''"
    by (auto simp: minutes_seconds_def bind_eq_Inr)
  then have "hd (str_int m) = CHR ''O''"
    using str_int_hd [of m] by (cases "str_int m") auto
  then show False
    using str_int_hd [of m] by auto
qed

lemma remaining_time_ready:
  assumes "map_of kvs ''estimatedDuration'' = Some d" "py_num d = Some est" "0 < est"
    and "map_of kvs ''timestamp'' = Some t" "py_num t = Some ts"
  shows "remaining_time now (JObj kvs) =
           (if est - (now - ts) \<le> 0 then Inr ''Overdue'' else minutes_seconds (est - (now - ts)))"
  using assms
  by (simp add: remaining_time_def has_estimate_num estimated_ms_num py_rsub_def Let_def)

lemma remaining_time_missing:
  assumes "map_of kvs ''estimatedDuration'' = None \<or> map_of kvs ''timestamp'' = None \<or>
           (\<exists>d est. map_of kvs ''estimatedDuration'' = Some d \<and> py_num d = Some est \<and> est \<le> 0)"
    and "remaining_time now (JObj kvs) = Inr r"
  shows "r = ''Unknown''"
proof -
  obtain c where c: "has_estimate (JObj kvs) = Inr c"
    using assms(2) by (auto simp: remaining_time_def bind_eq_Inr)
  have "\<not> c"
    using assms(1) c
    by (auto simp: has_estimate_absent has_estimate_num dest: has_estimate_no_timestamp)
  then show ?thesis
    using assms(2) c by (simp add: remaining_time_def)
qed



section \<open>The build label\<close>

lemma startswith_hash: "startswith s ''#'' \<longleftrightarrow> s \<noteq> [] \<and> hd s = CHR ''#''"
  by (cases s) (auto simp: startswith_def)

lemma number_display_str: "number_display (JStr s) n = Inr (spec_build_label s n)"
  by (simp add: number_display_def spec_build_label_def as_str_def startswith_def)

lemma number_display_hash: "number_display d n = Inr s \<Longrightarrow> startswith s ''#''"
  by (auto simp: number_display_def bind_eq_Inr as_str_def startswith_def
      split: if_splits json.splits)

lemma add_branch_hash: "startswith d ''#'' \<Longrightarrow> startswith (add_branch d b) ''#''"
  by (auto simp: add_branch_def startswith_hash)

lemma present_and_truthy_obj:
  "present_and_truthy (JObj kvs) k = Inr (case map_of kvs k of Some v \<Rightarrow> truthy v | None \<Rightarrow> False)"
  by (auto simp: present_and_truthy_def split: option.splits)

lemma choose_display_full:
  "map_of kvs ''fullDisplayName'' = Some (JStr fd) \<Longrightarrow> fd \<noteq> [] \<Longrightarrow>
   choose_display (JObj kvs) (JStr jn) n =
     Inr (JStr (if startswith fd jn then strip (drop (length jn) fd) else fd))"
  by (simp add: choose_display_def present_and_truthy_obj strip_job_prefix_def as_str_def)

lemma choose_display_plain:
  "map_of kvs ''fullDisplayName'' = None \<or> map_of kvs ''fullDisplayName'' = Some (JStr []) \<Longrightarrow>
   map_of kvs ''displayName'' = Some (JStr dn) \<Longrightarrow>
   choose_display (JObj kvs) jn n = Inr (JStr (if dn = [] then ''#'' @ py_str n else dn))"
  by (auto simp: choose_display_def present_and_truthy_obj)

lemma choose_display_number:
  "map_of kvs ''fullDisplayName'' = None \<or> map_of kvs ''fullDisplayName'' = Some (JStr []) \<Longrightarrow>
   map_of kvs ''displayName'' = None \<Longrightarrow>
   choose_display (JObj kvs) jn n = Inr (JStr (''#'' @ py_str n))"
  by (auto simp: choose_display_def present_and_truthy_obj)

lemma spec_build_label_number: "spec_build_label (CHR ''#'' # s) n = CHR ''#'' # s"
  by (simp add: spec_build_label_def startswith_def isspace_def is_space_def whitespace_def)

lemma spec_build_label_empty: "spec_build_label [] n = ''#'' @ py_str n"
  by (simp add: spec_build_label_def)

lemma resolve_job_name_sparse:
  assumes "map_of kvs ''jobName'' = None" "map_of kvs ''jobFullName'' = None"
    "map_of kvs ''jobDisplayName'' = None" "map_of kvs ''job'' = None" "map_of kvs ''url'' = None"
  shows "resolve_job_name (JObj kvs) = Inr (JStr ''Unknown'')"
  using assms by (simp add: resolve_job_name_def in_job_def get_job_name_from_url_def)

lemma extract_branch_sparse:
  assumes "map_of kvs ''actions'' = None" "map_of kvs ''fullDisplayName'' = None"
  shows "extract_branch (JObj kvs) = Inr JNull"
  using assms by (simp add: extract_branch_def as_str_def lower_def)

lemma py_str_NA: "py_str (JStr ''N/A'') = ''N/A''"
  by (simp add: py_str_def)

text \<open>
  Claim C8. The build label of every record that the normalizer returns is non-empty and
  starts with \<^verbatim>\<open>#\<close>. It is made of the full display name, stripped of the resolved job
  name and trimmed when it begins with it, else of the display name, else of the number;
  an empty or blank label becomes \<^verbatim>\<open>#<buildNumber>\<close>, a label without a leading
  \<^verbatim>\<open>#\<close> becomes \<^verbatim>\<open>#<buildNumber> - <label>\<close> (both rewrites are \<open>spec_build_label\<close>),
  and the branch suffix follows. A record with none of the optional fields gets the job
  name \<^verbatim>\<open>Unknown\<close> and the label \<^verbatim>\<open>#N/A\<close>.
\<close>

theorem build_label_resolution:
  assumes "get_build_info now_p now_r (JObj kvs) = Inr info"
  shows "build_display info \<noteq> [] \<and> startswith (build_display info) ''#'' \<and>
    (\<forall>fd jn. map_of kvs ''fullDisplayName'' = Some (JStr fd) \<and> fd \<noteq> [] \<and>
        job_name info = JStr jn \<longrightarrow>
        build_display info =
          add_branch (spec_build_label (if startswith fd jn then strip (drop (length jn) fd) else fd)
                        (build_number info)) (branch info)) \<and>
    (\<forall>dn. (map_of kvs ''fullDisplayName'' = None \<or> map_of kvs ''fullDisplayName'' = Some (JStr [])) \<and>
        map_of kvs ''displayName'' = Some (JStr dn) \<longrightarrow>
        build_display info = add_branch (spec_build_label dn (build_number info)) (branch info)) \<and>
    ((map_of kvs ''fullDisplayName'' = None \<or> map_of kvs ''fullDisplayName'' = Some (JStr [])) \<and>
        map_of kvs ''displayName'' = None \<longrightarrow>
        build_display info = add_branch (''#'' @ py_str (build_number info)) (branch info)) \<and>
    (map_of kvs ''jobName'' = None \<and> map_of kvs ''jobFullName'' = None \<and>
     map_of kvs ''jobDisplayName'' = None \<and> map_of kvs ''job'' = None \<and>
     map_of kvs ''url'' = None \<and> map_of kvs ''number'' = None \<and>
     map_of kvs ''actions'' = None \<and> map_of kvs ''fullDisplayName'' = None \<and>
     map_of kvs ''displayName'' = None \<longrightarrow>
     job_name info = JStr ''Unknown'' \<and> build_display info = ''#N/A'')"
proof -
  note parts = get_build_info_parts [OF assms]
  obtain d0 d1 where d: "choose_display (JObj kvs) (job_name info) (build_number info) = Inr d0"
    "number_display d0 (build_number info) = Inr d1"
    "build_display info = add_branch d1 (branch info)"
    using parts(4) by (auto simp: resolve_build_display_def bind_eq_Inr)
  have hash: "startswith (build_display info) ''#''"
    using d number_display_hash add_branch_hash by simp
  have full: "build_display info =
      add_branch (spec_build_label (if startswith fd jn then strip (drop (length jn) fd) else fd)
                    (build_number info)) (branch info)"
    if "map_of kvs ''fullDisplayName'' = Some (JStr fd)" "fd \<noteq> []" "job_name info = JStr jn"
    for fd jn
    using d that by (auto simp: choose_display_full number_display_str)
  have plain: "build_display info = add_branch (spec_build_label dn (build_number info)) (branch info)"
    if "map_of kvs ''fullDisplayName'' = None \<or> map_of kvs ''fullDisplayName'' = Some (JStr [])"
      "map_of kvs ''displayName'' = Some (JStr dn)" for dn
    using d choose_display_plain [OF that]
    by (auto simp: number_display_str spec_build_label_number spec_build_label_empty
        split: if_splits)
  have number: "build_display info = add_branch (''#'' @ py_str (build_number info)) (branch info)"
    if "map_of kvs ''fullDisplayName'' = None \<or> map_of kvs ''fullDisplayName'' = Some (JStr [])"
      "map_of kvs ''displayName'' = None"
    using d choose_display_number [OF that]
    by (auto simp: number_display_str spec_build_label_number)
  have sparse: "job_name info = JStr ''Unknown'' \<and> build_display info = ''#N/A''"
    if h: "map_of kvs ''jobName'' = None" "map_of kvs ''jobFullName'' = None"
      "map_of kvs ''jobDisplayName'' = None" "map_of kvs ''job'' = None"
      "map_of kvs ''url'' = None" "map_of kvs ''number'' = None"
      "map_of kvs ''actions'' = None" "map_of kvs ''fullDisplayName'' = None"
      "map_of kvs ''displayName'' = None"
  proof -
    have "job_name info = JStr ''Unknown''"
      using parts(1) resolve_job_name_sparse [OF h(1-5)] by simp
    moreover have "build_number info = JStr ''N/A''"
      using parts(2) h(6) by simp
    moreover have "branch info = JNull"
      using parts(3) extract_branch_sparse [OF h(7,8)] by simp
    ultimately show ?thesis
      using number h(8,9) by (simp add: add_branch_def py_str_NA)
  qed
  show ?thesis
    using hash full plain number sparse by (auto simp: startswith_hash)
qed

theorem build_label_resolution_witness:
  "map_sum id build_display (get_build_info 0 0 nightly_build) = Inr ''#42 nightly'' \<and>
   map_sum id job_name (get_build_info 0 0 (JObj [])) = Inr (JStr ''Unknown'') \<and>
   map_sum id build_display (get_build_info 0 0 (JObj [])) = Inr ''#N/A''"
proof -
  have g1: "get_build_info 0 0 nightly_build =
      Inr \<lparr> id' = JStr ''unknown'', job_name = JStr ''myjob'', build_number = JInt 42,
            build_display = ''#42 nightly'', estimated_duration = ''0.0m'', progress = 0,
            remaining = ''Unknown'', url = JStr [], timestamp = JInt 0, branch = JNull \<rparr>"
    by code_simp
  have "\<not> isl (get_build_info 0 0 (JObj []))"
    by code_simp
  then obtain i2 where g2: "get_build_info 0 0 (JObj []) = Inr i2"
    by (cases "get_build_info 0 0 (JObj [])") auto
  have "startswith ''#42 nightly'' ''#''"
    using build_label_resolution [OF g1 [unfolded nightly_build_def]] by simp
  moreover have "job_name i2 = JStr ''Unknown'' \<and> build_display i2 = ''#N/A''"
    using build_label_resolution [OF g2, THEN conjunct2, THEN conjunct2, THEN conjunct2,
        THEN conjunct2, THEN conjunct2]
    by simp
  ultimately show ?thesis
    using g1 g2 by simp
qed

section \<open>The branch taken from the parameters\<close>

text \<open>
  Claim C9. The claim says that the branch is the value of the first parameters entry
  named \<^verbatim>\<open>branch\<close> or \<^verbatim>\<open>git_branch\<close>, whatever later actions carry. The
  \<^verbatim>\<open>break\<close> leaves the loop over one action's parameters only, and the next action
  with such an entry overwrites the branch: here the first entry says \<^verbatim>\<open>main\<close> and
  the result is \<^verbatim>\<open>dev\<close>.
\<close>

theorem branch_later_action_overwrites:
  "get_build_info 0 0
     (JObj [(''number'', JInt 7),
            (''actions'', JList
               [JObj [(''parameters'',
                        JList [JObj [(''name'', JStr ''branch''), (''value'', JStr ''main'')]])],
                JObj [(''parameters'',
                        JList [JObj [(''name'', JStr ''GIT_BRANCH''), (''value'', JStr ''dev'')]])]])]) =
     Inr \<lparr> id' = JStr ''unknown'', job_name = JStr ''Unknown'', build_number = JInt 7,
           build_display = ''#7 - [dev]'', estimated_duration = ''0.0m'', progress = 0,
           remaining = ''Unknown'', url = JStr [], timestamp = JInt 0, branch = JStr ''dev'' \<rparr>"
  by code_simp

section \<open>The connector swallows transport failures\<close>

lemma failing_running: "isl (info computer_endpoint) \<Longrightarrow> get_running_builds info = JList []"
  by (cases "info computer_endpoint") (simp_all add: get_running_builds_def running_builds_from_def)

lemma failing_queue: "isl (info ''/queue/api/json'') \<Longrightarrow> get_build_queue info = JList []"
  by (cases "info ''/queue/api/json''") (simp_all add: get_build_queue_def)

lemma failing_jobs: "isl (info ''/api/json'') \<Longrightarrow> list_jobs info = []"
  by (cases "info ''/api/json''") (simp_all add: list_jobs_def)

lemma failing_latest: "isl (info ''/api/json'') \<Longrightarrow> get_latest_builds info limit = JList []"
  by (simp add: get_latest_builds_def failing_jobs sorted_by_timestamp_def)

lemma new_snapshot_empty:
  "fetch_running f = Inr (JList []) \<Longrightarrow> fetch_queue f = Inr (JList []) \<Longrightarrow>
   fetch_latest f = Inr (JList []) \<Longrightarrow>
   new_snapshot en f = \<lparr> running_builds = [], queued_builds = [], latest_builds = [],
                          snap_timestamp = now_str en, error = None \<rparr>"
  by (simp add: new_snapshot_def refresh_running_def refresh_queue_def refresh_latest_def
      py_iter_def sort_desc_def enumerate_eq_zip)

text \<open>
  Claim C10. The three methods of the connector return a list whatever the transport
  does (their results are values, never exceptions), and the empty list when the requests
  fail. A cycle in which every request fails therefore publishes a snapshot with three
  empty lists and no error message.
\<close>

theorem fetchers_swallow_transport_failures:
  assumes "\<forall>ep. isl (info ep)"
  shows "get_running_builds info = JList [] \<and> get_build_queue info = JList [] \<and>
         get_latest_builds info 20 = JList [] \<and>
         fst (refresh_data en (jenkins_connector info) NoFault d) = None \<and>
         get_data (snd (refresh_data en (jenkins_connector info) NoFault d)) =
           \<lparr> running_builds = [], queued_builds = [], latest_builds = [],
             snap_timestamp = now_str en, error = None \<rparr>"
proof -
  have r: "get_running_builds info = JList []"
    using assms by (simp add: failing_running)
  have q: "get_build_queue info = JList []"
    using assms by (simp add: failing_queue)
  have l: "get_latest_builds info 20 = JList []"
    using assms by (simp add: failing_latest)
  have "new_snapshot en (jenkins_connector info) =
          \<lparr> running_builds = [], queued_builds = [], latest_builds = [],
            snap_timestamp = now_str en, error = None \<rparr>"
    by (rule new_snapshot_empty) (simp_all add: jenkins_connector_def r q l)
  then show ?thesis
    using r q l by (simp add: refresh_data_def)
qed

theorem fetchers_swallow_transport_failures_witness:
  "isl (failed_transport ''/computer/api/json'') \<and>
   get_running_builds failed_transport = JList [] \<and>
   get_build_queue failed_transport = JList [] \<and>
   get_latest_builds failed_transport 20 = JList [] \<and>
   error (get_data (snd (refresh_data (frozen_env 0) (jenkins_connector failed_transport) NoFault
            (init_dashboard ''2025-01-01 00:00:00'')))) = None"
proof -
  have h: "\<forall>ep. isl (failed_transport ep)"
    by (simp add: failed_transport_def)
  then have a: "isl (failed_transport ''/computer/api/json'')"
    by blast
  show ?thesis
    using a fetchers_swallow_transport_failures
      [OF h, of "frozen_env 0" "init_dashboard ''2025-01-01 00:00:00''"]
    by simp
qed

section \<open>The normalizer on well-typed and on wrong-typed records\<close>

lemma opt_strD: "opt_str kvs k \<Longrightarrow> map_of kvs k = None \<or> (\<exists>s. map_of kvs k = Some (JStr s))"
  by (auto simp: opt_str_def is_str_def split: option.splits json.splits)

lemma opt_intD:
  "opt_int kvs k \<Longrightarrow> map_of kvs k = None \<or> (\<exists>n. map_of kvs k = Some (JInt n) \<and> \<bar>n\<bar> < 2 ^ 63)"
  by (auto simp: opt_int_def split: option.splits json.splits)

lemma opt_listD:
  "opt_list P kvs k \<Longrightarrow>
   map_of kvs k = None \<or> (\<exists>xs. map_of kvs k = Some (JList xs) \<and> list_all P xs)"
  by (auto simp: opt_list_def split: option.splits json.splits)

lemma get_job_name_from_url_str: "\<exists>s. get_job_name_from_url (JStr u) = Inr (JStr s)"
  by (auto simp: get_job_name_from_url_def as_str_def Let_def split: option.splits)

lemma get_job_name_from_url_absent: "get_job_name_from_url (JStr []) = Inr (JStr ''Unknown'')"
  by (simp add: get_job_name_from_url_def)

lemma in_job_obj:
  "in_job (JObj kvs) k =
     (case map_of kvs ''job'' of None \<Rightarrow> Inr False | Some j \<Rightarrow> py_in k j)"
  by (auto simp: in_job_def split: option.splits)

lemma resolve_job_name_wt:
  assumes "opt_str kvs ''jobName''" "opt_str kvs ''jobFullName''" "opt_str kvs ''jobDisplayName''"
    "wt_job kvs" "opt_str kvs ''url''"
  shows "\<exists>jn. resolve_job_name (JObj kvs) = Inr (JStr jn)"
proof -
  consider s where "map_of kvs ''jobName'' = Some (JStr s)"
    | s where "map_of kvs ''jobName'' = None" "map_of kvs ''jobFullName'' = Some (JStr s)"
    | s where "map_of kvs ''jobName'' = None" "map_of kvs ''jobFullName'' = None"
        "map_of kvs ''jobDisplayName'' = Some (JStr s)"
    | "map_of kvs ''jobName'' = None" "map_of kvs ''jobFullName'' = None"
      "map_of kvs ''jobDisplayName'' = None"
    using assms(1-3) by (auto dest!: opt_strD)
  then show ?thesis
  proof cases
    case 1
    then show ?thesis by (simp add: resolve_job_name_def)
  next
    case 2
    then show ?thesis by (simp add: resolve_job_name_def)
  next
    case 3
    then show ?thesis by (simp add: resolve_job_name_def)
  next
    case 4
    have u: "\<exists>jn. bind (py_get (JObj kvs) ''url'' (JStr [])) get_job_name_from_url = Inr (JStr jn)"
      using opt_strD [OF assms(5)] get_job_name_from_url_str
      by (auto simp: get_job_name_from_url_absent)
    show ?thesis
    proof (cases "map_of kvs ''job''")
      case None
      then show ?thesis
        using 4 u by (simp add: resolve_job_name_def in_job_obj)
    next
      case (Some j)
      then obtain js where js: "j = JObj js" "opt_str js ''name''" "opt_str js ''fullName''"
        using assms(4) by (auto simp: wt_job_def split: json.splits)
      show ?thesis
        using 4 u Some js(1) opt_strD [OF js(2)] opt_strD [OF js(3)]
        by (auto simp: resolve_job_name_def in_job_obj)
    qed
  qed
qed


lemma scan_parameters_wt:
  "list_all wt_param ps \<Longrightarrow> \<exists>b'. scan_parameters ps b = Inr b'"
proof (induction ps)
  case Nil
  then show ?case by simp
next
  case (Cons p ps)
  then obtain kvs where p: "p = JObj kvs" "opt_str kvs ''name''"
    by (auto simp: wt_param_def split: json.splits)
  show ?case
    using Cons opt_strD [OF p(2)] by (auto simp: p(1) as_str_def)
qed

lemma cause_step_wt: "wt_cause c \<Longrightarrow> \<exists>b'. cause_step c b = Inr b'"
proof -
  assume "wt_cause c"
  then obtain kvs where c: "c = JObj kvs" "opt_str kvs ''shortDescription''"
    by (auto simp: wt_cause_def split: json.splits)
  show ?thesis
    using opt_strD [OF c(2)] by (auto simp: c(1) cause_step_def as_str_def Let_def)
qed

lemma for_each_total:
  assumes "\<forall>x \<in> set xs. \<forall>s. \<exists>s'. body x s = Inr s'"
  shows "\<exists>s'. for_each body xs s = Inr s'"
  using assms
proof (induction xs arbitrary: s)
  case Nil
  then show ?case by simp
next
  case (Cons x xs)
  then obtain s1 where "body x s = Inr s1"
    by (meson list.set_intros(1))
  then show ?case
    using Cons by simp
qed

lemma action_step_wt: "wt_action a \<Longrightarrow> \<exists>b'. action_step a b = Inr b'"
proof -
  assume "wt_action a"
  then obtain kvs where a: "a = JObj kvs" "opt_list wt_param kvs ''parameters''"
    "opt_list wt_cause kvs ''causes''"
    by (auto simp: wt_action_def split: json.splits)
  have "\<exists>b1. (if map_of kvs ''parameters'' \<noteq> None
           then bind (py_getitem (JObj kvs) ''parameters'') (\<lambda>ps.
                bind (py_iter ps) (\<lambda>params. scan_parameters params b))
           else Inr b) = Inr b1"
    using opt_listD [OF a(2)] scan_parameters_wt by auto
  then obtain b1 where b1: "(if map_of kvs ''parameters'' \<noteq> None
           then bind (py_getitem (JObj kvs) ''parameters'') (\<lambda>ps.
                bind (py_iter ps) (\<lambda>params. scan_parameters params b))
           else Inr b) = Inr b1"
    by blast
  have "\<exists>b2. (if map_of kvs ''causes'' \<noteq> None
       then bind (py_get (JObj kvs) ''causes'' (JList [])) (\<lambda>cs.
            bind (py_iter cs) (\<lambda>causes. for_each cause_step causes b1))
       else Inr b1) = Inr b2"
    using opt_listD [OF a(3)] for_each_total [of _ cause_step b1] cause_step_wt
    by (auto simp: list_all_iff)
  then show ?thesis
    using b1 by (simp add: a(1) action_step_def)
qed

lemma extract_branch_wt:
  assumes "opt_list wt_action kvs ''actions''" "opt_str kvs ''fullDisplayName''"
  shows "\<exists>b. extract_branch (JObj kvs) = Inr b"
proof -
  have "\<exists>b0. (if map_of kvs ''actions'' \<noteq> None
           then bind (py_get (JObj kvs) ''actions'' (JList [])) (\<lambda>acts.
                bind (py_iter acts) (\<lambda>actions. for_each action_step actions JNull))
           else Inr JNull) = Inr b0"
    using opt_listD [OF assms(1)] for_each_total [of _ action_step JNull] action_step_wt
    by (auto simp: list_all_iff)
  then obtain b0 where b0: "(if map_of kvs ''actions'' \<noteq> None
           then bind (py_get (JObj kvs) ''actions'' (JList [])) (\<lambda>acts.
                bind (py_iter acts) (\<lambda>actions. for_each action_step actions JNull))
           else Inr JNull) = Inr b0"
    by blast
  show ?thesis
    using b0 opt_strD [OF assms(2)]
    by (auto simp: extract_branch_def as_str_def split: option.splits)
qed

lemma resolve_build_display_wt:
  assumes "opt_str kvs ''fullDisplayName''" "opt_str kvs ''displayName''"
  shows "\<exists>s. resolve_build_display (JObj kvs) (JStr jn) n b = Inr s"
proof -
  have "\<exists>s. choose_display (JObj kvs) (JStr jn) n = Inr (JStr s)"
  proof (cases "\<exists>fd. map_of kvs ''fullDisplayName'' = Some (JStr fd) \<and> fd \<noteq> []")
    case True
    then show ?thesis
      using choose_display_full by blast
  next
    case False
    then have f: "map_of kvs ''fullDisplayName'' = None \<or>
        map_of kvs ''fullDisplayName'' = Some (JStr [])"
      using opt_strD [OF assms(1)] by auto
    show ?thesis
      using opt_strD [OF assms(2)] choose_display_plain [OF f] choose_display_number [OF f]
      by auto
  qed
  then show ?thesis
    by (auto simp: resolve_build_display_def number_display_str)
qed


lemma py_num_int [simp]: "py_num (JInt n) = Some n"
  by (simp add: py_num_def)

lemma progress_pct_wt:
  assumes "opt_int kvs ''estimatedDuration''" "opt_int kvs ''timestamp''" "\<bar>now\<bar> < 2 ^ 63"
  shows "\<exists>p. progress_pct now (JObj kvs) = Inr p"
proof -
  consider "map_of kvs ''estimatedDuration'' = None"
    | est where "map_of kvs ''estimatedDuration'' = Some (JInt est)" "est \<le> 0"
    | est where "map_of kvs ''estimatedDuration'' = Some (JInt est)" "0 < est"
        "map_of kvs ''timestamp'' = None"
    | est ts where "map_of kvs ''estimatedDuration'' = Some (JInt est)" "0 < est"
        "map_of kvs ''timestamp'' = Some (JInt ts)" "\<bar>ts\<bar> < 2 ^ 63"
    using opt_intD [OF assms(1)] opt_intD [OF assms(2)] by (metis not_le)
  then show ?thesis
  proof cases
    case 1
    then show ?thesis by (simp add: progress_pct_def has_estimate_absent)
  next
    case 2
    then show ?thesis by (simp add: progress_pct_def has_estimate_num [of _ _ est])
  next
    case 3
    then show ?thesis by (simp add: progress_pct_def has_estimate_num [of _ _ est])
  next
    case 4
    have "\<bar>now - ts\<bar> < 1 * 2 ^ 64"
      using assms(3) 4(4) by simp
    also have "\<dots> \<le> est * 2 ^ 64"
      using 4(2) by (intro mult_right_mono) simp_all
    finally obtain ratio where r: "int_truediv (now - ts) est = Inr ratio"
      "\<bar>fst ratio\<bar> \<le> 2 ^ 53" "snd ratio \<le> max 0 (int 64 - 53)"
      using int_truediv_finite [of est "now - ts" 64] 4(2) by auto
    obtain y where "float_mul_int ratio 100 = Some y"
      using float_mul_int_finite [OF r(2,3)] by auto
    then show ?thesis
      using r(1) by (simp add: progress_pct_ready [OF 4(1) _ 4(2,3)] py_int_def)
  qed
qed

lemma minutes_seconds_finite:
  assumes "0 < tr" "tr < 2 ^ 66"
  shows "\<exists>s. minutes_seconds tr = Inr s"
proof -
  have "\<bar>tr\<bar> < 60000 * 2 ^ 66"
    using assms by simp
  then obtain m where m: "int_truediv tr 60000 = Inr m"
    using int_truediv_finite [of 60000 tr 66] by auto
  have "\<bar>tr mod 60000\<bar> < 1000 * 2 ^ 6"
    using pos_mod_bound [of 60000 tr] pos_mod_sign [of 60000 tr] by simp
  then obtain s where "int_truediv (tr mod 60000) 1000 = Inr s"
    using int_truediv_finite [of 1000 "tr mod 60000" 6] by auto
  then show ?thesis
    using m by (simp add: minutes_seconds_def)
qed

lemma remaining_time_wt:
  assumes "opt_int kvs ''estimatedDuration''" "opt_int kvs ''timestamp''" "\<bar>now\<bar> < 2 ^ 63"
  shows "\<exists>r. remaining_time now (JObj kvs) = Inr r"
proof -
  consider "map_of kvs ''estimatedDuration'' = None"
    | est where "map_of kvs ''estimatedDuration'' = Some (JInt est)" "est \<le> 0"
    | est where "map_of kvs ''estimatedDuration'' = Some (JInt est)" "0 < est"
        "map_of kvs ''timestamp'' = None"
    | est ts where "map_of kvs ''estimatedDuration'' = Some (JInt est)" "0 < est"
        "\<bar>est\<bar> < 2 ^ 63" "map_of kvs ''timestamp'' = Some (JInt ts)" "\<bar>ts\<bar> < 2 ^ 63"
    using opt_intD [OF assms(1)] opt_intD [OF assms(2)] by (metis not_le)
  then show ?thesis
  proof cases
    case 1
    then show ?thesis by (simp add: remaining_time_def has_estimate_absent)
  next
    case 2
    then show ?thesis by (simp add: remaining_time_def has_estimate_num [of _ _ est])
  next
    case 3
    then show ?thesis by (simp add: remaining_time_def has_estimate_num [of _ _ est])
  next
    case 4
    have "est - (now - ts) < 2 ^ 66"
      using assms(3) 4(3,5) by simp
    then show ?thesis
      using minutes_seconds_finite [of "est - (now - ts)"]
      by (auto simp: remaining_time_ready [OF 4(1) _ 4(2,4)])
  qed
qed

lemma estimated_duration_wt:
  assumes "opt_int kvs ''estimatedDuration''"
  shows "\<exists>m. bind (py_get (JObj kvs) ''estimatedDuration'' (JInt 0)) (\<lambda>d. py_truediv d 60000) = Inr m"
proof -
  have "\<exists>m. int_truediv n 60000 = Inr m" if "\<bar>n\<bar> < 2 ^ 63" for n
  proof -
    have "\<bar>n\<bar> < 60000 * 2 ^ 63"
      using that by simp
    then show ?thesis
      using int_truediv_finite [of 60000 n 63] by auto
  qed
  then show ?thesis
    using opt_intD [OF assms] by (auto simp: py_truediv_def)
qed




end
